theory Spec2Isabelle
  imports
    Complex_Main
    "HOL-Library.Char_ord"
    "HOL-Library.List_Lexorder"
    "HOL-Library.Product_Lexorder"
    "HOL-Library.Multiset"
    "HOL-Library.Sublist"
begin

section \<open>Strings\<close>

text \<open>
  Python strings are modelled as \<open>string\<close> (lists of 8-bit characters). Comparison of
  strings is the lexicographic order on character codes, as Python's \<open><\<close> on \<open>str\<close>.
  File names are taken to be ASCII: \<open>lower\<close> maps \<open>A..Z\<close> to \<open>a..z\<close> and leaves every
  other character alone, which is what \<open>str.lower\<close> does on ASCII text. \<open>str.lower\<close>
  itself is defined on all of Unicode: for names with letters outside ASCII the
  lowercased forms, and with them the order by lowercased path, are those of the code
  only as far as the names agree with their ASCII reading.
\<close>

definition LF :: char where
  "LF = CHR 0x0A"

definition CR :: char where
  "CR = CHR 0x0D"

definition backslash :: char where
  "backslash = CHR 0x5C"

definition apostrophe :: char where
  "apostrophe = CHR 0x27"

definition lower_char :: "char \<Rightarrow> char" where
  "lower_char c =
     (case map_of (zip ''ABCDEFGHIJKLMNOPQRSTUVWXYZ'' ''abcdefghijklmnopqrstuvwxyz'') c of
        Some l \<Rightarrow> l
      | None \<Rightarrow> c)"

definition lower :: "string \<Rightarrow> string" where
  "lower s = map lower_char s"

text \<open>\<open>sep.join(parts)\<close>\<close>

fun join :: "string \<Rightarrow> string list \<Rightarrow> string" where
  "join sep [] = []"
| "join sep [x] = x"
| "join sep (x # y # ys) = x @ sep @ join sep (y # ys)"

text \<open>\<open>s.replace('\\', '/')\<close>\<close>

definition replace_backslash :: "string \<Rightarrow> string" where
  "replace_backslash s = map (\<lambda>c. if c = backslash then CHR ''/'' else c) s"

text \<open>\<open>s.startswith('.')\<close>\<close>

fun startswith_dot :: "string \<Rightarrow> bool" where
  "startswith_dot [] = False"
| "startswith_dot (c # cs) = (c = CHR ''.'')"

text \<open>\<open>s.rfind(c)\<close>: the index of the last occurrence, \<open>None\<close> for Python's \<open>-1\<close>.\<close>

fun rfind :: "char \<Rightarrow> string \<Rightarrow> nat option" where
  "rfind c [] = None"
| "rfind c (x # xs) =
     (case rfind c xs of
        Some i \<Rightarrow> Some (Suc i)
      | None \<Rightarrow> if x = c then Some 0 else None)"

text \<open>
  \<open>os.path.splitext\<close> on a bare file name (no directory separator in it, so the
  separator index of the library routine is \<open>-1\<close>): the extension starts at the last
  dot, unless only dots come before it.
\<close>

definition splitext :: "string \<Rightarrow> string \<times> string" where
  "splitext p =
     (case rfind (CHR ''.'') p of
        None \<Rightarrow> (p, [])
      | Some dotIndex \<Rightarrow>
          if list_ex (\<lambda>c. c \<noteq> CHR ''.'') (take dotIndex p)
          then (take dotIndex p, drop dotIndex p)
          else (p, []))"

section \<open>Numbers as text\<close>

definition digit_char :: "nat \<Rightarrow> char" where
  "digit_char d = ''0123456789'' ! d"

text \<open>\<open>str(n)\<close> for \<open>n \<ge> 0\<close>\<close>

function str_nat :: "nat \<Rightarrow> string" where
  "str_nat n = (if n < 10 then [digit_char n] else str_nat (n div 10) @ [digit_char (n mod 10)])"
  by pat_completeness auto
termination
  by (relation "measure id") auto

declare str_nat.simps [simp del]

text \<open>\<open>str(i)\<close>\<close>

definition str_int :: "int \<Rightarrow> string" where
  "str_int i = (if i < 0 then CHR ''-'' # str_nat (nat (- i)) else str_nat (nat i))"

text \<open>
  The grouping of \<open>f"{n:,}"\<close>: a comma before every group of three digits, counted from
  the right.
\<close>

function group3 :: "string \<Rightarrow> string" where
  "group3 ds =
     (if length ds \<le> 3 then ds
      else group3 (take (length ds - 3) ds) @ CHR '','' # drop (length ds - 3) ds)"
  by pat_completeness auto
termination
  by (relation "measure length") auto

declare group3.simps [simp del]

text \<open>\<open>f"{i:,}"\<close>\<close>

definition format_commas :: "int \<Rightarrow> string" where
  "format_commas i =
     (if i < 0 then CHR ''-'' # group3 (str_nat (nat (- i))) else group3 (str_nat (nat i)))"

text \<open>
  \<open>f"{x:.1f}"\<close>. A finite float is a real number, and the conversion rounds its
  exact value to the nearest tenth, a tie going to the even digit. The sizes of the scan
  are \<open>bytes / 1024\<close>, a division by a power of two, which floating point performs
  without rounding for every file size below \<open>2^53\<close> bytes.
\<close>

definition round_half_even :: "real \<Rightarrow> int" where
  "round_half_even q =
     (let f = \<lfloor>q\<rfloor>; r = q - of_int f
      in if r < 1 / 2 then f
         else if 1 / 2 < r then f + 1
         else if even f then f else f + 1)"

definition format_1f :: "real \<Rightarrow> string" where
  "format_1f x =
     (let t = nat (round_half_even (\<bar>x\<bar> * 10));
          body = str_nat (t div 10) @ CHR ''.'' # [digit_char (t mod 10)]
      in if x < 0 then CHR ''-'' # body else body)"

section \<open>The file system\<close>

text \<open>
  A directory is the list of its entries in the order \<open>os.scandir\<close> reports them.
  A file carries what the two probes of the scan return for it: its size in bytes
  (\<open>None\<close> when \<open>os.path.getsize\<close> raises \<open>OSError\<close>) and its text as the text-mode
  reader delivers it, undecodable bytes already dropped (\<open>None\<close> when opening or
  reading raises \<open>OSError\<close>). A directory that cannot be listed, or a link to a
  directory, contributes nothing to the walk and is a directory without entries.
\<close>

datatype entry =
    File string "nat option" "string option"
  | Dir string "entry list"

fun is_dir :: "entry \<Rightarrow> bool" where
  "is_dir (Dir _ _) = True"
| "is_dir (File _ _ _) = False"

fun entry_name :: "entry \<Rightarrow> string" where
  "entry_name (Dir d _) = d"
| "entry_name (File f _ _) = f"

fun children :: "entry \<Rightarrow> entry list" where
  "children (Dir _ es) = es"
| "children (File _ _ _) = []"

fun getsize :: "entry \<Rightarrow> nat option" where
  "getsize (File _ sz _) = sz"
| "getsize (Dir _ _) = None"

fun read_text :: "entry \<Rightarrow> string option" where
  "read_text (File _ _ txt) = txt"
| "read_text (Dir _ _) = None"

section \<open>count_lines\<close>

text \<open>
  Iterating a text-mode file yields its lines: a line ends at \<open>\n\<close>, at \<open>\r\n\<close> or at a
  lone \<open>\r\<close> (each delivered as \<open>\n\<close>), and what follows the last terminator is a last
  line when it is not empty. The first argument is the line read so far.
\<close>

fun readlines :: "string \<Rightarrow> string \<Rightarrow> string list" where
  "readlines cur [] = (if cur = [] then [] else [cur])"
| "readlines cur (c # cs) =
     (if c = LF then (cur @ [LF]) # readlines [] cs
      else if c = CR then
        (case cs of
           [] \<Rightarrow> [cur @ [LF]]
         | c' # cs' \<Rightarrow>
             if c' = LF then (cur @ [LF]) # readlines [] cs'
             else (cur @ [LF]) # readlines [] cs)
      else readlines (cur @ [c]) cs)"

definition count_lines :: "entry \<Rightarrow> int" where
  "count_lines f =
     (case read_text f of
        None \<Rightarrow> 0
      | Some text \<Rightarrow> int (length (readlines [] text)))"

section \<open>get_file_info\<close>

record file_record =
  path :: string
  lines :: int
  size_kb :: real
  ext :: string

lemma size_children: "size_list size (children d) \<le> size d"
  by (cases d) simp_all

lemma size_filter_le: "size_list size (filter P es) \<le> size_list size es"
  by (induction es) simp_all

text \<open>
  \<open>os.walk(startpath, topdown=True)\<close> together with the pruning assignment
  \<open>dirs[:] = [d for d in dirs if d not in skip_dirs]\<close> of the loop body: \<open>walk\<close> is one
  directory (it yields the directory and its files, then goes through the
  subdirectories that are left), \<open>walk_dirs\<close> is the generator's loop over them. The
  directory is the list of names from the start path down to it.
\<close>

function walk :: "string set \<Rightarrow> string list \<Rightarrow> entry list \<Rightarrow> (string list \<times> entry list) list"
  and walk_dirs :: "string set \<Rightarrow> string list \<Rightarrow> entry list \<Rightarrow> (string list \<times> entry list) list"
  where
  "walk skip_dirs rootdir es =
     (let dirs = filter is_dir es;
          files = filter (\<lambda>e. \<not> is_dir e) es;
          dirs' = filter (\<lambda>d. entry_name d \<notin> skip_dirs) dirs
      in (rootdir, files) # walk_dirs skip_dirs rootdir dirs')"
| "walk_dirs skip_dirs rootdir [] = []"
| "walk_dirs skip_dirs rootdir (d # ds) =
     walk skip_dirs (rootdir @ [entry_name d]) (children d) @ walk_dirs skip_dirs rootdir ds"
  by pat_completeness auto

termination
proof (relation "measure (\<lambda>x. case x of
          Inl (sd, rootdir, es) \<Rightarrow> 2 * size_list size es + 1
        | Inr (sd, rootdir, ds) \<Rightarrow> 2 * size_list size ds)", goal_cases)
  case 1
  show ?case by simp
next
  case (2 sd rootdir es dirs files dirs')
  have "size_list size (filter (\<lambda>d. entry_name d \<notin> sd) (filter is_dir es))
        \<le> size_list size es"
    by (rule order_trans [OF size_filter_le size_filter_le])
  with 2 show ?case by simp
next
  case (3 sd rootdir d ds)
  show ?case using size_children [of d] by simp
next
  case (4 sd rootdir d ds)
  show ?case by simp
qed

declare walk.simps [simp del]

text \<open>
  \<open>os.path.relpath(os.path.join(root, file), startpath).replace('\\', '/')\<close>: the
  names from the start path down to the file, joined by the separator, every backslash
  turned into a slash.
\<close>

definition rel_path :: "string list \<Rightarrow> string \<Rightarrow> string" where
  "rel_path rootdir file = replace_backslash (join ''/'' (rootdir @ [file]))"

text \<open>The extension test of the loop body: \<open>os.path.splitext(file)[1].lower()\<close>.\<close>

definition file_ext :: "string \<Rightarrow> string" where
  "file_ext file = lower (snd (splitext file))"

text \<open>The body of the loop over \<open>files\<close>: \<open>None\<close> is \<open>continue\<close>, \<open>Some\<close> the record appended.\<close>

definition process_file :: "string set \<Rightarrow> string list \<Rightarrow> entry \<Rightarrow> file_record option" where
  "process_file skip_extensions rootdir f =
     (let file = entry_name f in
      if startswith_dot file \<or> file = ''desktop.ini'' \<or> file = ''__init__.py'' then None
      else
        let ext = file_ext file in
        if ext \<in> skip_extensions then None
        else
          let rel = rel_path rootdir file in
          case getsize f of
            None \<Rightarrow> None
          | Some bytes \<Rightarrow>
              Some \<lparr>path = rel,
                    lines = count_lines f,
                    size_kb = of_nat bytes / 1024,
                    ext = (if ext \<noteq> [] then tl ext else ''none'')\<rparr>)"

text \<open>The records in the order the loops append them.\<close>

definition collect :: "string set \<Rightarrow> (string list \<times> entry list) list \<Rightarrow> file_record list" where
  "collect skip_extensions visited =
     concat (map (\<lambda>(rootdir, files). List.map_filter (process_file skip_extensions rootdir) files) visited)"

definition get_file_info :: "string set \<Rightarrow> string set \<Rightarrow> entry list \<Rightarrow> file_record list" where
  "get_file_info skip_dirs skip_extensions start =
     sort_key (\<lambda>x. lower (path x)) (collect skip_extensions (walk skip_dirs [] start))"

section \<open>Configuration\<close>

text \<open>
  The module's two tables. A Python set has no duplicates and is iterated in an order
  that changes from one process to the next (string hashing is seeded per run), so a
  set is the list of its elements in the order the run at hand iterates it: \<open>in\<close> is
  membership in \<open>set xs\<close>, and \<open>sorted(s)\<close> sorts the list. The dictionary keeps
  its insertion order.
\<close>

record config =
  skip_dirs :: "string list"
  skip_extensions_by_category :: "(string \<times> string list) list"

definition DEFAULT_SKIP_DIRS :: "string list" where
  "DEFAULT_SKIP_DIRS =
     [''__pycache__'', ''.git'', ''node_modules'', ''venv'', ''env'', ''.venv'', ''.env'',
      ''logs'', ''!backups'']"

definition DEFAULT_SKIP_EXTENSIONS_BY_CATEGORY :: "(string \<times> string list) list" where
  "DEFAULT_SKIP_EXTENSIONS_BY_CATEGORY =
     [(''Document Files'',
        [''.md'', ''.pdf'', ''.doc'', ''.docx'', ''.xls'', ''.xlsx'', ''.ppt'', ''.pptx'',
         ''.odt'', ''.ods'', ''.odp'', ''.rtf'', ''.txt'', ''.csv'', ''.tsv'']),
      (''Database Files'',
        [''.db'', ''.sqlite'', ''.sqlite3'', ''.db3'', ''.mdb'', ''.accdb'', ''.sql'',
         ''.frm'', ''.myd'', ''.myi'']),
      (''Image Files'',
        [''.jpg'', ''.jpeg'', ''.png'', ''.gif'', ''.bmp'', ''.tiff'', ''.tif'', ''.webp'',
         ''.svg'', ''.ico'', ''.psd'', ''.ai'', ''.eps'', ''.raw'', ''.heic'', ''.heif'',
         ''.indd'', ''.cr2'', ''.nef'', ''.arw'', ''.dng'']),
      (''Archive/Compressed Files'',
        [''.zip'', ''.rar'', ''.7z'', ''.tar'', ''.gz'', ''.bz2'', ''.xz'']),
      (''Backup and Cache Files'',
        [''.bak'', ''.tmp'', ''.swp'', ''.swo'', ''~'']),
      (''Binary/Compiled Files'',
        [''.pyc'', ''.pyo'', ''.pyd'', ''.so'', ''.dll'', ''.exe'', ''.class'']),
      (''System and Config Files'',
        [''.ini'', ''.cfg'', ''.conf'', ''.log'', ''.lock'', ''.lnk''])]"

definition DEFAULT_CONFIG :: config where
  "DEFAULT_CONFIG =
     \<lparr>skip_dirs = DEFAULT_SKIP_DIRS,
      skip_extensions_by_category = DEFAULT_SKIP_EXTENSIONS_BY_CATEGORY\<rparr>"

text \<open>\<open>{ext for category in ....values() for ext in category}\<close>\<close>

definition skip_extensions :: "config \<Rightarrow> string set" where
  "skip_extensions cfg = set (concat (map snd (skip_extensions_by_category cfg)))"

definition DEFAULT_SKIP_EXTENSIONS :: "string set" where
  "DEFAULT_SKIP_EXTENSIONS = skip_extensions DEFAULT_CONFIG"

section \<open>Sorting and slicing\<close>

text \<open>
  \<open>sorted(xs, key=f)\<close> is the stable sort \<open>sort_key f xs\<close>. With \<open>reverse=True\<close> the list
  is reversed, sorted and reversed again, which is how equal keys keep their order.
\<close>

definition sorted_reverse :: "('a \<Rightarrow> 'k::linorder) \<Rightarrow> 'a list \<Rightarrow> 'a list" where
  "sorted_reverse f xs = rev (sort_key f (rev xs))"

text \<open>\<open>xs[:n]\<close>: a negative bound counts from the end.\<close>

definition slice_to :: "int \<Rightarrow> 'a list \<Rightarrow> 'a list" where
  "slice_to n xs = (if 0 \<le> n then take (nat n) xs else take (length xs - nat (- n)) xs)"

section \<open>Tables\<close>

definition no_files_found :: string where
  "no_files_found = ''*No files found matching the criteria.*''"

definition no_non_empty_files :: string where
  "no_non_empty_files = ''*No non-empty files found.*''"

text \<open>The sort of \<open>generate_markdown_table\<close>: the key is the pair \<open>(-lines, path.lower())\<close>.\<close>

definition sorted_info :: "file_record list \<Rightarrow> file_record list" where
  "sorted_info file_info = sort_key (\<lambda>x. (- lines x, lower (path x))) file_info"

definition markdown_row :: "file_record \<Rightarrow> string" where
  "markdown_row info =
     ''| `'' @ path info @ ''` | '' @ ext info @ '' | '' @ format_commas (lines info)
       @ '' | '' @ format_1f (size_kb info) @ '' |''"

text \<open>The list \<open>table\<close> of \<open>generate_markdown_table\<close>, before it is joined.\<close>

definition markdown_table_lines :: "file_record list \<Rightarrow> string list" where
  "markdown_table_lines file_info =
     [''| File | Extension | Lines | Size (KB) |'', ''|------|-----------|-------|-----------|'']
       @ map markdown_row (sorted_info file_info)"

definition generate_markdown_table :: "file_record list \<Rightarrow> string" where
  "generate_markdown_table file_info =
     (if file_info = [] then no_files_found
      else join [LF] (markdown_table_lines file_info))"

text \<open>One pass of the loop \<open>for i, info in enumerate(files, 1)\<close>.\<close>

definition file_table_row :: "bool \<Rightarrow> nat \<times> file_record \<Rightarrow> string" where
  "file_table_row show_rank = (\<lambda>(i, info).
     let row = (if show_rank then [str_nat i] else [])
                 @ [''`'' @ path info @ ''`'',
                    format_commas (lines info),
                    format_1f (size_kb info)]
     in ''| '' @ join '' | '' row @ '' |'')"

definition file_table_lines :: "file_record list \<Rightarrow> bool \<Rightarrow> string list" where
  "file_table_lines files show_rank =
     (let headers = (if show_rank then [''Rank'', ''File'', ''Lines'', ''Size (KB)'']
                     else [''File'', ''Lines'', ''Size (KB)'']);
          separator = replicate (length headers) ''------''
      in [''| '' @ join '' | '' headers @ '' |'', ''|'' @ join ''|'' separator @ ''|'']
           @ map (file_table_row show_rank) (zip [1 ..< Suc (length files)] files))"

definition generate_file_table :: "file_record list \<Rightarrow> bool \<Rightarrow> string" where
  "generate_file_table files show_rank =
     (if files = [] then no_files_found
      else join [LF] (file_table_lines files show_rank))"

text \<open>The local \<open>sorted_files\<close> of \<open>generate_top_files_table\<close> and of its sibling.\<close>

definition top_files :: "file_record list \<Rightarrow> int \<Rightarrow> file_record list" where
  "top_files file_info top_n =
     slice_to top_n (sorted_reverse lines (filter (\<lambda>f. 0 < lines f) file_info))"

definition bottom_files :: "file_record list \<Rightarrow> int \<Rightarrow> file_record list" where
  "bottom_files file_info bottom_n =
     slice_to bottom_n (sort_key lines (filter (\<lambda>f. 0 < lines f) file_info))"

definition generate_top_files_table :: "file_record list \<Rightarrow> int \<Rightarrow> string" where
  "generate_top_files_table file_info top_n =
     (if file_info = [] then no_files_found
      else if filter (\<lambda>f. 0 < lines f) file_info = [] then no_non_empty_files
      else generate_file_table (top_files file_info top_n) True)"

definition generate_bottom_files_table :: "file_record list \<Rightarrow> int \<Rightarrow> string" where
  "generate_bottom_files_table file_info bottom_n =
     (if file_info = [] then no_files_found
      else if filter (\<lambda>f. 0 < lines f) file_info = [] then no_non_empty_files
      else generate_file_table (bottom_files file_info bottom_n) True)"

section \<open>The report\<close>

definition quoted :: "string \<Rightarrow> string" where
  "quoted s = ''`'' @ s @ ''`''"

definition category_lines :: "string \<times> string list \<Rightarrow> string list" where
  "category_lines = (\<lambda>(category, extensions).
     [''### '' @ category, join '', '' (map quoted (sort extensions)), []])"

definition exclusions_note :: string where
  "exclusions_note =
     [LF] @ ''*Note: The scan also excludes hidden files (names starting with a `.period` ), ''
       @ ''`__init__.py`, and `desktop.ini` files.*''"

definition generate_exclusions_list :: "config \<Rightarrow> string" where
  "generate_exclusions_list cfg =
     join [LF]
       ([''## Excluded File Types and Directories'', []]
        @ concat (map category_lines (sort_key fst (skip_extensions_by_category cfg)))
        @ [''### Excluded Directories'',
           join '', '' (map quoted (sort (skip_dirs cfg))),
           exclusions_note])"

definition generate_report :: "config \<Rightarrow> string \<Rightarrow> file_record list \<Rightarrow> int \<Rightarrow> string" where
  "generate_report cfg start_path file_info top_n =
     join [LF]
       [''# Line Count Report'',
        ''*Generated at: `'' @ start_path @ ''`*'',
        [],
        ''## File Statistics'',
        ''- **Total files analyzed:** '' @ format_commas (int (length file_info)),
        ''- **Total lines of code:** '' @ format_commas (sum_list (map lines file_info)),
        [],
        ''## Largest Files'',
        ''*Top '' @ str_int top_n @ '' files by line count*'',
        [],
        generate_top_files_table file_info top_n,
        [],
        ''---'',
        [],
        ''## Smallest Files'',
        ''*Top 5 smallest non-empty files*'',
        [],
        generate_bottom_files_table file_info 5,
        [],
        ''---'',
        [],
        ''## Complete File List'',
        ''*Sorted by line count (descending), then by filename*'',
        [],
        generate_markdown_table file_info,
        [],
        ''---'',
        [],
        generate_exclusions_list cfg]"

section \<open>main\<close>

text \<open>
  What \<open>main\<close> sees of the world: whether the resolved start path is a directory, the
  tree below it, and what writing the output file does (\<open>None\<close> for success, the
  message of the \<open>IOError\<close> otherwise). What it does: the lines it prints and the write it
  attempts, as the pair of output path and content.
\<close>

record world =
  isdir :: bool
  tree :: "entry list"
  write_error :: "string option"

record outcome =
  printed :: "string list"
  write_attempt :: "(string \<times> string) option"

definition main :: "config \<Rightarrow> string \<Rightarrow> string \<Rightarrow> int \<Rightarrow> world \<Rightarrow> outcome" where
  "main cfg start_path output_path top_n w =
     (if \<not> isdir w then
        \<lparr>printed = [''Error: '' @ [apostrophe] @ start_path @ [apostrophe]
                      @ '' is not a valid directory.''],
         write_attempt = None\<rparr>
      else
        let analyzing = ''Analyzing files in: '' @ start_path @ ''...'';
            file_info = get_file_info (set (skip_dirs cfg)) (skip_extensions cfg) (tree w)
        in if file_info = [] then
             \<lparr>printed = [analyzing, ''No files found matching the criteria. Report not generated.''],
              write_attempt = None\<rparr>
           else
             let report_content = generate_report cfg start_path file_info top_n
             in case write_error w of
                  None \<Rightarrow>
                    \<lparr>printed = [analyzing, ''Report generated successfully: '' @ output_path],
                     write_attempt = Some (output_path, report_content)\<rparr>
                | Some e \<Rightarrow>
                    \<lparr>printed = [analyzing, ''Error writing to '' @ output_path @ '': '' @ e],
                     write_attempt = Some (output_path, report_content)\<rparr>)"

section \<open>Notions the properties are stated with\<close>

text \<open>
  The walk that prunes nothing visits every directory of the tree; each comes with the
  names of the directories that lead to it from the start path.
\<close>

definition every_directory :: "entry list \<Rightarrow> (string list \<times> entry list) list" where
  "every_directory start = walk {} [] start"

text \<open>
  A visited directory lies outside the excluded ones when no name on the way down to
  it, from \<open>rootdir\<close> on, is excluded.
\<close>

definition below_ok :: "string set \<Rightarrow> string list \<Rightarrow> string list \<times> entry list \<Rightarrow> bool" where
  "below_ok sd rootdir v = list_all (\<lambda>d. d \<notin> sd) (drop (length rootdir) (fst v))"

definition not_excluded :: "string set \<Rightarrow> string list \<times> entry list \<Rightarrow> bool" where
  "not_excluded sd v = list_all (\<lambda>d. d \<notin> sd) (fst v)"

text \<open>The size probe of a file succeeds.\<close>

definition sizable :: "entry \<Rightarrow> bool" where
  "sizable f = (getsize f \<noteq> None)"

text \<open>The three conditions on a file's name under which the loop body skips it.\<close>

definition rejected_name :: "string set \<Rightarrow> string \<Rightarrow> bool" where
  "rejected_name se file =
     (startswith_dot file \<or> file = ''desktop.ini'' \<or> file = ''__init__.py''
      \<or> lower (snd (splitext file)) \<in> se)"

text \<open>
  The number of line-terminated segments of a text: one for each terminator \<open>\n\<close>,
  \<open>\r\n\<close> or lone \<open>\r\<close>.
\<close>

fun count_terminators :: "string \<Rightarrow> nat" where
  "count_terminators [] = 0"
| "count_terminators (c # cs) =
     (if c = LF then Suc (count_terminators cs)
      else if c = CR then
        (case cs of
           [] \<Rightarrow> 1
         | c' # cs' \<Rightarrow>
             if c' = LF then Suc (count_terminators cs') else Suc (count_terminators cs))
      else count_terminators cs)"

text \<open>The text ends in characters that no terminator follows.\<close>

definition ends_unterminated :: "string \<Rightarrow> bool" where
  "ends_unterminated text = (text \<noteq> [] \<and> last text \<noteq> LF \<and> last text \<noteq> CR)"



text \<open>
  The files of a tree, read off the tree itself: each file with the names of the
  directories that lead to it from the start path. A file directly in the start
  directory has the empty list of names.
\<close>

fun all_files :: "string list \<Rightarrow> entry \<Rightarrow> (string list \<times> entry) list" where
  "all_files p (File name sz content) = [(p, File name sz content)]"
| "all_files p (Dir d sub) = concat (map (all_files (p @ [d])) sub)"

definition tree_files :: "entry list \<Rightarrow> (string list \<times> entry) list" where
  "tree_files start = concat (map (all_files []) start)"


text \<open>The files a walk visits, each with the directory it is in.\<close>

definition visited_files :: "(string list \<times> entry list) list \<Rightarrow> (string list \<times> entry) list" where
  "visited_files visited = concat (map (\<lambda>(rootdir, fs). map (Pair rootdir) fs) visited)"

section \<open>Unfolding on concrete inputs\<close>

lemmas scan_defs =
  get_file_info_def collect_def walk.simps List.map_filter_def process_file_def
  file_ext_def splitext_def lower_def lower_char_def rel_path_def replace_backslash_def
  count_lines_def backslash_def LF_def CR_def Let_def

section \<open>Pruning of excluded directories\<close>

lemma walk_prefix:
  "v \<in> set (walk s rootdir es) \<Longrightarrow> \<exists>t. fst v = rootdir @ t"
  "v \<in> set (walk_dirs s rootdir ds) \<Longrightarrow>
     \<exists>d t. d \<in> set ds \<and> fst v = rootdir @ entry_name d # t"
proof (induction s rootdir es and s rootdir ds arbitrary: v and v rule: walk_walk_dirs.induct)
  case (1 s rootdir es)
  from "1.prems" have "v = (rootdir, filter (\<lambda>e. \<not> is_dir e) es) \<or>
      v \<in> set (walk_dirs s rootdir (filter (\<lambda>d. entry_name d \<notin> s) (filter is_dir es)))"
    by (simp add: walk.simps)
  then show ?case
  proof
    assume "v = (rootdir, filter (\<lambda>e. \<not> is_dir e) es)"
    then show ?thesis by simp
  next
    assume "v \<in> set (walk_dirs s rootdir (filter (\<lambda>d. entry_name d \<notin> s) (filter is_dir es)))"
    from "1.IH" [OF refl refl refl this] show ?thesis by auto
  qed
next
  case (2 s rootdir)
  then show ?case by simp
next
  case (3 s rootdir d ds)
  from "3.prems" have "v \<in> set (walk s (rootdir @ [entry_name d]) (children d)) \<or>
      v \<in> set (walk_dirs s rootdir ds)" by simp
  then show ?case
  proof
    assume "v \<in> set (walk s (rootdir @ [entry_name d]) (children d))"
    from "3.IH"(1) [OF this] show ?thesis by auto
  next
    assume "v \<in> set (walk_dirs s rootdir ds)"
    from "3.IH"(2) [OF this] show ?thesis by auto
  qed
qed

lemma below_ok_root: "below_ok sd rootdir (rootdir, fs)"
  by (simp add: below_ok_def)

lemma below_ok_step:
  "fst v = rootdir @ d # t \<Longrightarrow>
     below_ok sd rootdir v = (d \<notin> sd \<and> below_ok sd (rootdir @ [d]) v)"
  by (simp add: below_ok_def)

lemma filter_below_excluded:
  assumes "entry_name d \<in> sd"
  shows "filter (below_ok sd rootdir) (walk s (rootdir @ [entry_name d]) es) = []"
proof -
  have "\<not> below_ok sd rootdir v" if "v \<in> set (walk s (rootdir @ [entry_name d]) es)" for v
  proof -
    from walk_prefix(1) [OF that] obtain t where "fst v = rootdir @ entry_name d # t" by auto
    from below_ok_step [OF this] assms show ?thesis by simp
  qed
  then show ?thesis by (simp add: filter_empty_conv)
qed

lemma filter_below_kept:
  assumes "entry_name d \<notin> sd"
  shows "filter (below_ok sd rootdir) (walk s (rootdir @ [entry_name d]) es)
       = filter (below_ok sd (rootdir @ [entry_name d])) (walk s (rootdir @ [entry_name d]) es)"
proof (rule filter_cong [OF refl])
  fix v assume v: "v \<in> set (walk s (rootdir @ [entry_name d]) es)"
  from walk_prefix(1) [OF v] obtain t where t: "fst v = (rootdir @ [entry_name d]) @ t" by auto
  show "below_ok sd rootdir v = below_ok sd (rootdir @ [entry_name d]) v"
  proof (cases t)
    case Nil
    with t assms show ?thesis by (simp add: below_ok_def)
  next
    case (Cons a u)
    with t assms show ?thesis by (simp add: below_ok_def)
  qed
qed

lemma walk_pruned:
  "s \<subseteq> sd \<Longrightarrow> walk sd rootdir es = filter (below_ok sd rootdir) (walk s rootdir es)"
  "s \<subseteq> sd \<Longrightarrow> walk_dirs sd rootdir (filter (\<lambda>d. entry_name d \<notin> sd) ds)
     = filter (below_ok sd rootdir) (walk_dirs s rootdir ds)"
proof (induction s rootdir es and s rootdir ds rule: walk_walk_dirs.induct)
  case (1 s rootdir es)
  have eq: "filter (\<lambda>d. entry_name d \<notin> sd) (filter (\<lambda>d. entry_name d \<notin> s) (filter is_dir es))
      = filter (\<lambda>d. entry_name d \<notin> sd) (filter is_dir es)"
    using "1.prems" by (auto intro: filter_cong)
  from "1.IH" [OF refl refl refl "1.prems"] eq
  have "walk_dirs sd rootdir (filter (\<lambda>d. entry_name d \<notin> sd) (filter is_dir es))
      = filter (below_ok sd rootdir)
          (walk_dirs s rootdir (filter (\<lambda>d. entry_name d \<notin> s) (filter is_dir es)))"
    by simp
  then show ?case
    by (simp add: walk.simps [of sd] walk.simps [of s] below_ok_root)
next
  case (2 s rootdir)
  show ?case by simp
next
  case (3 s rootdir d ds)
  show ?case
  proof (cases "entry_name d \<in> sd")
    case True
    with "3.IH"(2) [OF "3.prems"] show ?thesis
      by (simp add: filter_below_excluded)
  next
    case False
    with "3.IH"(1) [OF "3.prems"] "3.IH"(2) [OF "3.prems"] show ?thesis
      by (simp add: filter_below_kept)
  qed
qed

lemma walk_is_filtered_full_walk:
  "walk sd [] start = filter (not_excluded sd) (every_directory start)"
proof -
  have "below_ok sd [] = not_excluded sd"
    by (rule ext) (simp add: below_ok_def not_excluded_def)
  with walk_pruned(1) [of "{}" sd "[]" start] show ?thesis
    by (simp add: every_directory_def)
qed

text \<open>
  C1. The records \<open>get_file_info\<close> returns are those of the directories no excluded name
  leads to, and of no other: they are computed from the complete walk of the tree with
  every directory dropped that has an excluded name anywhere on the way down to it. So a
  file beneath an excluded directory, at any depth and also inside a directory that is
  not itself excluded, gives no record.
\<close>

theorem get_file_info_skips_excluded_dirs:
  "get_file_info sd se start =
     sort_key (\<lambda>x. lower (path x))
       (collect se (filter (not_excluded sd) (every_directory start)))"
proof -
  have "walk sd [] start = filter (not_excluded sd) (every_directory start)"
    by (rule walk_is_filtered_full_walk)
  then show ?thesis
    unfolding get_file_info_def by (rule arg_cong)
qed

theorem get_file_info_skips_excluded_dirs_witness:
  "get_file_info {''node_modules''} {''.md''}
     [File ''a.py'' (Some 2048) (Some ''x''),
      Dir ''node_modules'' [File ''c.py'' (Some 1) (Some ''y''),
                            Dir ''lib'' [File ''d.py'' (Some 1) (Some ''z'')]],
      Dir ''src'' [Dir ''node_modules'' [File ''e.py'' (Some 1) (Some ''u'')],
                   File ''b.py'' (Some 512) (Some '''')]]
   = sort_key (\<lambda>x. lower (path x))
       (collect {''.md''} (filter (not_excluded {''node_modules''})
         (every_directory
           [File ''a.py'' (Some 2048) (Some ''x''),
            Dir ''node_modules'' [File ''c.py'' (Some 1) (Some ''y''),
                                  Dir ''lib'' [File ''d.py'' (Some 1) (Some ''z'')]],
            Dir ''src'' [Dir ''node_modules'' [File ''e.py'' (Some 1) (Some ''u'')],
                         File ''b.py'' (Some 512) (Some '''')]])))
   \<and> get_file_info {''node_modules''} {''.md''}
     [File ''a.py'' (Some 2048) (Some ''x''),
      Dir ''node_modules'' [File ''c.py'' (Some 1) (Some ''y''),
                            Dir ''lib'' [File ''d.py'' (Some 1) (Some ''z'')]],
      Dir ''src'' [Dir ''node_modules'' [File ''e.py'' (Some 1) (Some ''u'')],
                   File ''b.py'' (Some 512) (Some '''')]]
   = [\<lparr>path = ''a.py'', lines = 1, size_kb = 2, ext = ''py''\<rparr>,
      \<lparr>path = ''src/b.py'', lines = 0, size_kb = 1 / 2, ext = ''py''\<rparr>]"
proof (rule conjI)
  show "get_file_info {''node_modules''} {''.md''}
     [File ''a.py'' (Some 2048) (Some ''x''),
      Dir ''node_modules'' [File ''c.py'' (Some 1) (Some ''y''),
                            Dir ''lib'' [File ''d.py'' (Some 1) (Some ''z'')]],
      Dir ''src'' [Dir ''node_modules'' [File ''e.py'' (Some 1) (Some ''u'')],
                   File ''b.py'' (Some 512) (Some '''')]]
   = sort_key (\<lambda>x. lower (path x))
       (collect {''.md''} (filter (not_excluded {''node_modules''})
         (every_directory
           [File ''a.py'' (Some 2048) (Some ''x''),
            Dir ''node_modules'' [File ''c.py'' (Some 1) (Some ''y''),
                                  Dir ''lib'' [File ''d.py'' (Some 1) (Some ''z'')]],
            Dir ''src'' [Dir ''node_modules'' [File ''e.py'' (Some 1) (Some ''u'')],
                         File ''b.py'' (Some 512) (Some '''')]])))"
    by (rule get_file_info_skips_excluded_dirs)
next
  show "get_file_info {''node_modules''} {''.md''}
     [File ''a.py'' (Some 2048) (Some ''x''),
      Dir ''node_modules'' [File ''c.py'' (Some 1) (Some ''y''),
                            Dir ''lib'' [File ''d.py'' (Some 1) (Some ''z'')]],
      Dir ''src'' [Dir ''node_modules'' [File ''e.py'' (Some 1) (Some ''u'')],
                   File ''b.py'' (Some 512) (Some '''')]]
   = [\<lparr>path = ''a.py'', lines = 1, size_kb = 2, ext = ''py''\<rparr>,
      \<lparr>path = ''src/b.py'', lines = 0, size_kb = 1 / 2, ext = ''py''\<rparr>]"
    by (simp add: scan_defs)
qed

section \<open>The loop body\<close>

lemma process_file_None_iff:
  "process_file se rootdir f = None \<longleftrightarrow> rejected_name se (entry_name f) \<or> getsize f = None"
  by (auto simp: process_file_def rejected_name_def file_ext_def Let_def split: option.splits)

lemma process_file_Some:
  "\<not> rejected_name se (entry_name f) \<Longrightarrow> getsize f = Some b \<Longrightarrow>
   process_file se rootdir f =
     Some \<lparr>path = rel_path rootdir (entry_name f), lines = count_lines f,
           size_kb = of_nat b / 1024,
           ext = (if file_ext (entry_name f) \<noteq> [] then tl (file_ext (entry_name f)) else ''none'')\<rparr>"
  by (auto simp: process_file_def rejected_name_def file_ext_def Let_def)

lemma set_map_filter:
  "set (List.map_filter g xs) = {y. \<exists>x. x \<in> set xs \<and> g x = Some y}"
  by (induction xs) (auto simp: List.map_filter_simps split: option.splits)

lemma set_collect:
  "set (collect se visited) =
     {r. \<exists>rootdir fs f. (rootdir, fs) \<in> set visited \<and> f \<in> set fs \<and> process_file se rootdir f = Some r}"
proof (induction visited)
  case Nil
  show ?case by (simp add: collect_def)
next
  case (Cons v visited)
  obtain rootdir fs where v: "v = (rootdir, fs)" by (cases v)
  have "collect se (v # visited) = List.map_filter (process_file se rootdir) fs @ collect se visited"
    by (simp add: collect_def v)
  then show ?case
    using Cons.IH by (auto simp: set_map_filter v)
qed

lemma set_get_file_info:
  "set (get_file_info sd se start) = set (collect se (walk sd [] start))"
  by (simp add: get_file_info_def)

lemma map_filter_drops_unsizable:
  "List.map_filter (process_file se rootdir) (filter sizable fs)
     = List.map_filter (process_file se rootdir) fs"
proof (induction fs)
  case Nil
  show ?case by simp
next
  case (Cons f fs)
  show ?case
  proof (cases "getsize f")
    case None
    then have "process_file se rootdir f = None"
      by (simp add: process_file_None_iff)
    with None Cons.IH show ?thesis
      by (simp add: List.map_filter_simps sizable_def)
  next
    case (Some b)
    with Cons.IH show ?thesis
      by (simp add: List.map_filter_simps sizable_def split: option.splits)
  qed
qed

lemma collect_drops_unsizable:
  "collect se (map (\<lambda>(rootdir, fs). (rootdir, filter sizable fs)) visited)
     = collect se visited"
  by (induction visited) (auto simp: collect_def map_filter_drops_unsizable)


lemma lower_char_dot: "lower_char c = CHR ''.'' \<longleftrightarrow> c = CHR ''.''"
  by (simp add: lower_char_def split: if_splits)

lemma rfind_lower: "rfind (CHR ''.'') (lower p) = rfind (CHR ''.'') p"
  by (induction p) (simp_all add: lower_def lower_char_dot)

lemma lower_Nil: "lower [] = []"
  by (simp add: lower_def)

lemma lower_take: "lower (take n p) = take n (lower p)"
  by (simp add: lower_def take_map)

lemma lower_drop: "lower (drop n p) = drop n (lower p)"
  by (simp add: lower_def drop_map)

lemma list_ex_lower: "list_ex (\<lambda>c. c \<noteq> CHR ''.'') (lower p) = list_ex (\<lambda>c. c \<noteq> CHR ''.'') p"
  by (induction p) (simp_all add: lower_def lower_char_dot)

lemma file_ext_lower: "file_ext file = snd (splitext (lower file))"
proof -
  have "list_ex (\<lambda>c. c \<noteq> CHR ''.'') (take n (lower file))
      = list_ex (\<lambda>c. c \<noteq> CHR ''.'') (take n file)" for n
    using list_ex_lower [of "take n file"] by (simp add: lower_take)
  then show ?thesis
    by (simp add: file_ext_def splitext_def rfind_lower lower_drop lower_Nil split: option.splits)
qed


text \<open>
  C3. A file whose size probe fails gives no record: the result is the same as if every
  such file were absent from the directories visited. A file whose size is known but
  whose text cannot be read still gives its record, with \<open>lines = 0\<close>, provided its
  name is not one the scan rejects.
\<close>

theorem size_failure_drops_file:
  "get_file_info sd se start =
     sort_key (\<lambda>x. lower (path x))
       (collect se (map (\<lambda>(rootdir, fs). (rootdir, filter sizable fs)) (walk sd [] start)))
   \<and> (\<forall>rootdir fs f b.
         (rootdir, fs) \<in> set (walk sd [] start) \<and> f \<in> set fs \<and> getsize f = Some b
           \<and> read_text f = None \<and> \<not> rejected_name se (entry_name f)
         \<longrightarrow> (\<exists>r. r \<in> set (get_file_info sd se start)
                \<and> path r = rel_path rootdir (entry_name f) \<and> lines r = 0))"
proof (rule conjI)
  show "get_file_info sd se start =
     sort_key (\<lambda>x. lower (path x))
       (collect se (map (\<lambda>(rootdir, fs). (rootdir, filter sizable fs)) (walk sd [] start)))"
    by (simp add: get_file_info_def collect_drops_unsizable)
next
  show "\<forall>rootdir fs f b.
         (rootdir, fs) \<in> set (walk sd [] start) \<and> f \<in> set fs \<and> getsize f = Some b
           \<and> read_text f = None \<and> \<not> rejected_name se (entry_name f)
         \<longrightarrow> (\<exists>r. r \<in> set (get_file_info sd se start)
                \<and> path r = rel_path rootdir (entry_name f) \<and> lines r = 0)"
  proof (intro allI impI)
    fix rootdir fs f b
    assume a: "(rootdir, fs) \<in> set (walk sd [] start) \<and> f \<in> set fs \<and> getsize f = Some b
           \<and> read_text f = None \<and> \<not> rejected_name se (entry_name f)"
    let ?r = "\<lparr>path = rel_path rootdir (entry_name f), lines = count_lines f,
           size_kb = of_nat b / 1024,
           ext = (if file_ext (entry_name f) \<noteq> [] then tl (file_ext (entry_name f)) else ''none'')\<rparr>"
    from a have "process_file se rootdir f = Some ?r"
      by (simp add: process_file_Some)
    with a have "?r \<in> set (get_file_info sd se start)"
      unfolding set_get_file_info set_collect by blast
    moreover from a have "lines ?r = 0"
      by (simp add: count_lines_def)
    ultimately show "\<exists>r. r \<in> set (get_file_info sd se start)
                \<and> path r = rel_path rootdir (entry_name f) \<and> lines r = 0"
      by (intro exI [of _ ?r]) simp
  qed
qed

theorem size_failure_drops_file_witness:
  "(\<exists>r. r \<in> set (get_file_info {} {} [File ''a.py'' None (Some ''x''), File ''b.py'' (Some 10) None])
        \<and> path r = rel_path [] ''b.py'' \<and> lines r = 0)
   \<and> get_file_info {} {} [File ''a.py'' None (Some ''x''), File ''b.py'' (Some 10) None]
       = [\<lparr>path = ''b.py'', lines = 0, size_kb = 10 / 1024, ext = ''py''\<rparr>]"
proof (rule conjI)
  let ?fs = "[File ''a.py'' None (Some ''x''), File ''b.py'' (Some 10) None]"
  have "([], ?fs) \<in> set (walk {} [] ?fs) \<and> File ''b.py'' (Some 10) None \<in> set ?fs
      \<and> getsize (File ''b.py'' (Some 10) None) = Some 10
      \<and> read_text (File ''b.py'' (Some 10) None) = None
      \<and> \<not> rejected_name {} (entry_name (File ''b.py'' (Some 10) None))"
    by (simp add: walk.simps rejected_name_def)
  with size_failure_drops_file [of "{}" "{}" ?fs]
  show "\<exists>r. r \<in> set (get_file_info {} {} ?fs) \<and> path r = rel_path [] ''b.py'' \<and> lines r = 0"
    by (metis entry_name.simps(2))
next
  show "get_file_info {} {} [File ''a.py'' None (Some ''x''), File ''b.py'' (Some 10) None]
       = [\<lparr>path = ''b.py'', lines = 0, size_kb = 10 / 1024, ext = ''py''\<rparr>]"
    by (simp add: scan_defs)
qed


lemma get_file_info_single:
  "get_file_info sd se [f] = (case process_file se [] f of None \<Rightarrow> [] | Some r \<Rightarrow> [r])"
  if "\<not> is_dir f"
  using that by (simp add: get_file_info_def collect_def walk.simps List.map_filter_simps split: option.splits)

text \<open>
  C6, as amended. The loop body gives no record for a file exactly when its name starts
  with a dot, is \<open>desktop.ini\<close> or \<open>__init__.py\<close>, has a lowercased extension in the
  excluded set, or its size probe fails; the same holds of \<open>get_file_info\<close> on a
  directory that holds the one file. The extension test only looks at the lowercased
  name: names equal up to letter case have the same extension.
\<close>

theorem file_rejection_rule:
  "(process_file se rootdir f = None \<longleftrightarrow> rejected_name se (entry_name f) \<or> getsize f = None)
   \<and> (get_file_info sd se [File file sz txt] = [] \<longleftrightarrow> rejected_name se file \<or> sz = None)
   \<and> (lower file = lower file' \<longrightarrow> file_ext file = file_ext file')"
proof (intro conjI)
  show "process_file se rootdir f = None \<longleftrightarrow> rejected_name se (entry_name f) \<or> getsize f = None"
    by (rule process_file_None_iff)
next
  have "get_file_info sd se [File file sz txt] = [] \<longleftrightarrow> process_file se [] (File file sz txt) = None"
    by (simp add: get_file_info_single split: option.splits)
  then show "get_file_info sd se [File file sz txt] = [] \<longleftrightarrow> rejected_name se file \<or> sz = None"
    by (simp add: process_file_None_iff)
next
  show "lower file = lower file' \<longrightarrow> file_ext file = file_ext file'"
    by (simp add: file_ext_lower)
qed

theorem file_rejection_rule_witness:
  "(process_file {''.md''} [] (File ''README.MD'' (Some 3) (Some ''x'')) = None)
   \<and> rejected_name {''.md''} ''README.MD''
   \<and> get_file_info {} {''.md''} [File ''.hidden'' (Some 3) (Some ''x'')] = []
   \<and> get_file_info {} {''.md''} [File ''a.py'' (Some 1024) (Some ''x'')]
        = [\<lparr>path = ''a.py'', lines = 1, size_kb = 1, ext = ''py''\<rparr>]
   \<and> file_ext ''README.MD'' = file_ext ''readme.md''"
proof (intro conjI)
  have r: "rejected_name {''.md''} ''README.MD''"
    by (simp add: rejected_name_def splitext_def lower_def lower_char_def)
  then show "rejected_name {''.md''} ''README.MD''" .
  from r file_rejection_rule [of "{''.md''}" "[]" "File ''README.MD'' (Some 3) (Some ''x'')"]
  show "process_file {''.md''} [] (File ''README.MD'' (Some 3) (Some ''x'')) = None"
    by simp
  have "rejected_name {''.md''} ''.hidden''"
    by (simp add: rejected_name_def)
  with file_rejection_rule [of "{''.md''}" _ _ "{}" "''.hidden''" "Some 3" "Some ''x''"]
  show "get_file_info {} {''.md''} [File ''.hidden'' (Some 3) (Some ''x'')] = []"
    by simp
  show "get_file_info {} {''.md''} [File ''a.py'' (Some 1024) (Some ''x'')]
        = [\<lparr>path = ''a.py'', lines = 1, size_kb = 1, ext = ''py''\<rparr>]"
    by (simp add: scan_defs)
  have "lower ''README.MD'' = lower ''readme.md''"
    by (simp add: lower_def lower_char_def)
  with file_rejection_rule [of _ _ _ _ "''README.MD''" _ _ "''readme.md''"]
  show "file_ext ''README.MD'' = file_ext ''readme.md''"
    by blast
qed

text \<open>
  The claim C6 as it is written fails: \<open>a.py\<close> with a failing size probe gives no
  record although none of the three conditions on its name holds.
\<close>

theorem file_rejection_rule_counterexample:
  "get_file_info {} {''.md''} [File ''a.py'' None (Some ''x'')] = []
   \<and> \<not> startswith_dot ''a.py'' \<and> ''a.py'' \<noteq> ''desktop.ini'' \<and> ''a.py'' \<noteq> ''__init__.py''
   \<and> lower (snd (splitext ''a.py'')) \<notin> {''.md''}"
  by (simp add: scan_defs)


section \<open>Counting lines\<close>

lemma length_readlines:
  "length (readlines cur s) =
     count_terminators s
       + (if ends_unterminated s \<or> (s = [] \<and> cur \<noteq> []) then 1 else 0)"
proof (induction cur s rule: readlines.induct)
  case (1 cur)
  show ?case by (simp add: ends_unterminated_def)
next
  case (2 cur c cs)
  show ?case
  proof (cases "c = LF")
    case True
    with "2.IH"(1) show ?thesis
      by (cases cs) (auto simp: ends_unterminated_def)
  next
    case nl: False
    show ?thesis
    proof (cases "c = CR")
      case cr: True
      show ?thesis
      proof (cases cs)
        case Nil
        with nl cr show ?thesis by (simp add: ends_unterminated_def)
      next
        case (Cons c' cs')
        show ?thesis
        proof (cases "c' = LF")
          case True
          with nl cr Cons "2.IH"(2) [OF nl cr Cons True] show ?thesis
            by (cases cs') (auto simp: ends_unterminated_def)
        next
          case False
          with nl cr Cons "2.IH"(3) [OF nl cr Cons False] show ?thesis
            by (auto simp: ends_unterminated_def)
        qed
      qed
    next
      case False
      with nl "2.IH"(4) [OF nl False] show ?thesis
        by (cases cs) (auto simp: ends_unterminated_def)
    qed
  qed
qed


text \<open>
  C2, as amended. \<open>count_lines\<close> is 0 when the file cannot be opened or read, and
  otherwise the number of line-terminated segments of the text plus one when the text
  ends in a segment that no terminator closes.
\<close>

theorem count_lines_counts_lines:
  "count_lines (File name sz None) = 0
   \<and> count_lines (File name sz (Some s)) =
       int (count_terminators s) + (if ends_unterminated s then 1 else 0)"
proof (rule conjI)
  show "count_lines (File name sz None) = 0"
    by (simp add: count_lines_def)
next
  have "length (readlines [] s) = count_terminators s + (if ends_unterminated s then 1 else 0)"
    using length_readlines [of "[]" s] by simp
  then show "count_lines (File name sz (Some s)) =
       int (count_terminators s) + (if ends_unterminated s then 1 else 0)"
    by (simp add: count_lines_def)
qed

theorem count_lines_counts_lines_witness:
  "count_lines (File ''f'' None None) = 0
   \<and> count_lines (File ''f'' (Some 4) (Some [CHR ''a'', LF, CHR ''b'', CR, LF, CHR ''c''])) = 3
   \<and> count_terminators [CHR ''a'', LF, CHR ''b'', CR, LF, CHR ''c''] = 2
   \<and> ends_unterminated [CHR ''a'', LF, CHR ''b'', CR, LF, CHR ''c'']"
proof -
  have "count_terminators [CHR ''a'', LF, CHR ''b'', CR, LF, CHR ''c''] = 2
      \<and> ends_unterminated [CHR ''a'', LF, CHR ''b'', CR, LF, CHR ''c'']"
    by (simp add: ends_unterminated_def LF_def CR_def)
  with count_lines_counts_lines [of "''f''" None]
       count_lines_counts_lines [of "''f''" "Some 4" "[CHR ''a'', LF, CHR ''b'', CR, LF, CHR ''c'']"]
  show ?thesis by simp
qed

text \<open>
  The claim C2 as it is written fails on a text without a final terminator: \<open>abc\<close> has
  no line-terminated segment and counts as one line.
\<close>

theorem count_lines_counts_lines_counterexample:
  "count_lines (File ''f'' (Some 3) (Some ''abc'')) = 1 \<and> count_terminators ''abc'' = 0"
  by (simp add: count_lines_def LF_def CR_def)

section \<open>The full listing\<close>

lemma sorted_info_nth:
  assumes "i < j" "j < length file_info"
  shows "lines (sorted_info file_info ! j) < lines (sorted_info file_info ! i)
       \<or> (lines (sorted_info file_info ! i) = lines (sorted_info file_info ! j)
          \<and> lower (path (sorted_info file_info ! i)) \<le> lower (path (sorted_info file_info ! j)))"
proof -
  let ?key = "\<lambda>x. (- lines x, lower (path x))"
  let ?s = "sorted_info file_info"
  have len: "length ?s = length file_info"
    by (simp add: sorted_info_def)
  have "sorted (map ?key ?s)"
    unfolding sorted_info_def by (rule sorted_sort_key)
  moreover from assms len have "i \<le> j" "j < length (map ?key ?s)" by simp_all
  ultimately have "map ?key ?s ! i \<le> map ?key ?s ! j"
    by (rule sorted_nth_mono)
  with assms len have "?key (?s ! i) \<le> ?key (?s ! j)" by simp
  then show ?thesis
    by (auto simp: less_eq_prod_def)
qed

text \<open>
  C4. The rows of the full listing are those of the records sorted by \<open>sorted_info\<close>, a
  rearrangement of the input in which an earlier record has more lines than a later one,
  or as many lines and a lowercased path that is not greater.
\<close>

theorem full_listing_order:
  "(file_info \<noteq> [] \<longrightarrow>
      generate_markdown_table file_info =
        join [LF] ([''| File | Extension | Lines | Size (KB) |'',
                    ''|------|-----------|-------|-----------|'']
                   @ map markdown_row (sorted_info file_info)))
   \<and> mset (sorted_info file_info) = mset file_info
   \<and> (\<forall>i j. i < j \<and> j < length file_info \<longrightarrow>
         lines (sorted_info file_info ! j) < lines (sorted_info file_info ! i)
         \<or> (lines (sorted_info file_info ! i) = lines (sorted_info file_info ! j)
            \<and> lower (path (sorted_info file_info ! i)) \<le> lower (path (sorted_info file_info ! j))))"
proof (intro conjI)
  show "file_info \<noteq> [] \<longrightarrow>
      generate_markdown_table file_info =
        join [LF] ([''| File | Extension | Lines | Size (KB) |'',
                    ''|------|-----------|-------|-----------|'']
                   @ map markdown_row (sorted_info file_info))"
    by (simp add: generate_markdown_table_def markdown_table_lines_def)
  show "mset (sorted_info file_info) = mset file_info"
    by (simp add: sorted_info_def)
  show "\<forall>i j. i < j \<and> j < length file_info \<longrightarrow>
         lines (sorted_info file_info ! j) < lines (sorted_info file_info ! i)
         \<or> (lines (sorted_info file_info ! i) = lines (sorted_info file_info ! j)
            \<and> lower (path (sorted_info file_info ! i)) \<le> lower (path (sorted_info file_info ! j)))"
    using sorted_info_nth by blast
qed

lemmas table_defs =
  sorted_info_def lower_def lower_char_def less_eq_prod_def less_prod_def
  sorted_reverse_def slice_to_def top_files_def bottom_files_def

theorem full_listing_order_witness:
  "sorted_info
     [\<lparr>path = ''B.py'', lines = 3, size_kb = 1, ext = ''py''\<rparr>,
      \<lparr>path = ''a.py'', lines = 3, size_kb = 1, ext = ''py''\<rparr>,
      \<lparr>path = ''c.py'', lines = 7, size_kb = 1, ext = ''py''\<rparr>]
   = [\<lparr>path = ''c.py'', lines = 7, size_kb = 1, ext = ''py''\<rparr>,
      \<lparr>path = ''a.py'', lines = 3, size_kb = 1, ext = ''py''\<rparr>,
      \<lparr>path = ''B.py'', lines = 3, size_kb = 1, ext = ''py''\<rparr>]
   \<and> lower ''a.py'' \<le> lower ''B.py'' \<and> ''B.py'' < ''a.py''
   \<and> (lines (sorted_info
     [\<lparr>path = ''B.py'', lines = 3, size_kb = 1, ext = ''py''\<rparr>,
      \<lparr>path = ''a.py'', lines = 3, size_kb = 1, ext = ''py''\<rparr>,
      \<lparr>path = ''c.py'', lines = 7, size_kb = 1, ext = ''py''\<rparr>] ! 1)
     < lines (sorted_info
     [\<lparr>path = ''B.py'', lines = 3, size_kb = 1, ext = ''py''\<rparr>,
      \<lparr>path = ''a.py'', lines = 3, size_kb = 1, ext = ''py''\<rparr>,
      \<lparr>path = ''c.py'', lines = 7, size_kb = 1, ext = ''py''\<rparr>] ! 0))"
proof -
  let ?fi = "[\<lparr>path = ''B.py'', lines = 3, size_kb = 1, ext = ''py''\<rparr>,
      \<lparr>path = ''a.py'', lines = 3, size_kb = 1, ext = ''py''\<rparr>,
      \<lparr>path = ''c.py'', lines = 7, size_kb = 1, ext = ''py''\<rparr>]"
  have s: "sorted_info ?fi
   = [\<lparr>path = ''c.py'', lines = 7, size_kb = 1, ext = ''py''\<rparr>,
      \<lparr>path = ''a.py'', lines = 3, size_kb = 1, ext = ''py''\<rparr>,
      \<lparr>path = ''B.py'', lines = 3, size_kb = 1, ext = ''py''\<rparr>]"
    by (simp add: table_defs)
  have "(0::nat) < 1 \<and> (1::nat) < length ?fi" by simp
  with full_listing_order [of ?fi]
  have "lines (sorted_info ?fi ! 1) < lines (sorted_info ?fi ! 0)
         \<or> (lines (sorted_info ?fi ! 0) = lines (sorted_info ?fi ! 1)
            \<and> lower (path (sorted_info ?fi ! 0)) \<le> lower (path (sorted_info ?fi ! 1)))"
    by blast
  with s have "lines (sorted_info ?fi ! 1) < lines (sorted_info ?fi ! 0)" by simp
  moreover have "lower ''a.py'' \<le> lower ''B.py'' \<and> ''B.py'' < ''a.py''"
    by (simp add: lower_def lower_char_def)
  ultimately show ?thesis using s by simp
qed

section \<open>The largest and the smallest files\<close>

lemma sorted_reverse_descending:
  "sorted_wrt (\<lambda>a b. f b \<le> f a) (sorted_reverse f xs)"
proof -
  have "sorted (map f (sort_key f (rev xs)))"
    by (rule sorted_sort_key)
  then have "sorted_wrt (\<lambda>a b. f a \<le> f b) (sort_key f (rev xs))"
    by (simp add: sorted_map)
  then show ?thesis
    by (simp add: sorted_reverse_def sorted_wrt_rev)
qed

lemma sorted_reverse_stable:
  "filter (\<lambda>x. f x = k) (sorted_reverse f xs) = filter (\<lambda>x. f x = k) xs"
proof -
  have "filter (\<lambda>x. f x = k) (sorted_reverse f xs)
      = rev (filter (\<lambda>x. f x = k) (sort_key f (rev xs)))"
    by (simp add: sorted_reverse_def rev_filter)
  also have "\<dots> = rev (filter (\<lambda>x. f x = k) (rev xs))"
    by (simp add: sort_key_stable)
  also have "\<dots> = filter (\<lambda>x. f x = k) xs"
    by (simp add: rev_filter)
  finally show ?thesis .
qed

lemma mset_sorted_reverse: "mset (sorted_reverse f xs) = mset xs"
  by (simp add: sorted_reverse_def)

lemma set_sorted_reverse: "set (sorted_reverse f xs) = set xs"
  by (simp add: sorted_reverse_def)

lemma set_slice_to: "set (slice_to n xs) \<subseteq> set xs"
  by (auto simp: slice_to_def dest: in_set_takeD)

lemma top_files_positive: "r \<in> set (top_files file_info n) \<Longrightarrow> 0 < lines r"
proof -
  assume r: "r \<in> set (top_files file_info n)"
  have "set (top_files file_info n)
      \<subseteq> set (sorted_reverse lines (filter (\<lambda>f. 0 < lines f) file_info))"
    unfolding top_files_def by (rule set_slice_to)
  with r have "r \<in> set (sorted_reverse lines (filter (\<lambda>f. 0 < lines f) file_info))"
    by (rule rev_subsetD)
  then show ?thesis by (simp add: set_sorted_reverse)
qed

lemma bottom_files_positive: "r \<in> set (bottom_files file_info n) \<Longrightarrow> 0 < lines r"
proof -
  assume r: "r \<in> set (bottom_files file_info n)"
  have "set (bottom_files file_info n)
      \<subseteq> set (sort_key lines (filter (\<lambda>f. 0 < lines f) file_info))"
    unfolding bottom_files_def by (rule set_slice_to)
  with r have "r \<in> set (sort_key lines (filter (\<lambda>f. 0 < lines f) file_info))"
    by (rule rev_subsetD)
  then show ?thesis by simp
qed

text \<open>
  C5, as amended. For \<open>n \<ge> 0\<close> the top table is made of the first \<open>n\<close> records of the
  input filtered to \<open>lines > 0\<close> and sorted by descending line count, records with
  equal counts in their order of the input, and the bottom table of the first \<open>n\<close> of
  the same records sorted by ascending line count. Whatever \<open>n\<close> is, no record with
  \<open>lines = 0\<close> is in either.
\<close>

theorem top_and_bottom_tables:
  "(0 \<le> n \<longrightarrow>
      top_files file_info n
        = take (nat n) (sorted_reverse lines (filter (\<lambda>f. 0 < lines f) file_info))
      \<and> bottom_files file_info n
        = take (nat n) (sort_key lines (filter (\<lambda>f. 0 < lines f) file_info)))
   \<and> sorted_wrt (\<lambda>a b. lines b \<le> lines a)
        (sorted_reverse lines (filter (\<lambda>f. 0 < lines f) file_info))
   \<and> (\<forall>k. filter (\<lambda>x. lines x = k) (sorted_reverse lines (filter (\<lambda>f. 0 < lines f) file_info))
          = filter (\<lambda>x. lines x = k) (filter (\<lambda>f. 0 < lines f) file_info))
   \<and> mset (sorted_reverse lines (filter (\<lambda>f. 0 < lines f) file_info))
        = mset (filter (\<lambda>f. 0 < lines f) file_info)
   \<and> sorted (map lines (sort_key lines (filter (\<lambda>f. 0 < lines f) file_info)))
   \<and> mset (sort_key lines (filter (\<lambda>f. 0 < lines f) file_info))
        = mset (filter (\<lambda>f. 0 < lines f) file_info)
   \<and> (\<forall>r. r \<in> set (top_files file_info n) \<or> r \<in> set (bottom_files file_info n)
          \<longrightarrow> lines r \<noteq> 0)
   \<and> (filter (\<lambda>f. 0 < lines f) file_info \<noteq> [] \<longrightarrow>
        generate_top_files_table file_info n = generate_file_table (top_files file_info n) True
        \<and> generate_bottom_files_table file_info n
            = generate_file_table (bottom_files file_info n) True)"
proof (intro conjI)
  show "0 \<le> n \<longrightarrow>
      top_files file_info n
        = take (nat n) (sorted_reverse lines (filter (\<lambda>f. 0 < lines f) file_info))
      \<and> bottom_files file_info n
        = take (nat n) (sort_key lines (filter (\<lambda>f. 0 < lines f) file_info))"
    by (simp add: top_files_def bottom_files_def slice_to_def)
  show "sorted_wrt (\<lambda>a b. lines b \<le> lines a)
        (sorted_reverse lines (filter (\<lambda>f. 0 < lines f) file_info))"
    by (rule sorted_reverse_descending)
  show "\<forall>k. filter (\<lambda>x. lines x = k) (sorted_reverse lines (filter (\<lambda>f. 0 < lines f) file_info))
          = filter (\<lambda>x. lines x = k) (filter (\<lambda>f. 0 < lines f) file_info)"
    by (simp add: sorted_reverse_stable)
  show "mset (sorted_reverse lines (filter (\<lambda>f. 0 < lines f) file_info))
        = mset (filter (\<lambda>f. 0 < lines f) file_info)"
    by (rule mset_sorted_reverse)
  show "sorted (map lines (sort_key lines (filter (\<lambda>f. 0 < lines f) file_info)))"
    by (rule sorted_sort_key)
  show "mset (sort_key lines (filter (\<lambda>f. 0 < lines f) file_info))
        = mset (filter (\<lambda>f. 0 < lines f) file_info)"
    by (rule mset_sort)
  show "\<forall>r. r \<in> set (top_files file_info n) \<or> r \<in> set (bottom_files file_info n)
          \<longrightarrow> lines r \<noteq> 0"
  proof (intro allI impI)
    fix r assume "r \<in> set (top_files file_info n) \<or> r \<in> set (bottom_files file_info n)"
    then have "0 < lines r"
      using top_files_positive [of r file_info n] bottom_files_positive [of r file_info n] by blast
    then show "lines r \<noteq> 0" by simp
  qed
  show "filter (\<lambda>f. 0 < lines f) file_info \<noteq> [] \<longrightarrow>
        generate_top_files_table file_info n = generate_file_table (top_files file_info n) True
        \<and> generate_bottom_files_table file_info n
            = generate_file_table (bottom_files file_info n) True"
    by (simp add: generate_top_files_table_def generate_bottom_files_table_def)
qed


lemmas format_defs =
  format_1f_def round_half_even_def Let_def format_commas_def group3.simps
  str_nat.simps digit_char_def

lemmas render_defs =
  generate_top_files_table_def generate_bottom_files_table_def generate_file_table_def
  file_table_lines_def file_table_row_def generate_markdown_table_def markdown_table_lines_def
  markdown_row_def no_files_found_def no_non_empty_files_def

theorem top_and_bottom_tables_witness:
  "top_files
     [\<lparr>path = ''a.py'', lines = 3, size_kb = 1, ext = ''py''\<rparr>,
      \<lparr>path = ''b.py'', lines = 0, size_kb = 0, ext = ''py''\<rparr>,
      \<lparr>path = ''c.py'', lines = 7, size_kb = 1, ext = ''py''\<rparr>,
      \<lparr>path = ''d.py'', lines = 3, size_kb = 1, ext = ''py''\<rparr>,
      \<lparr>path = ''e.py'', lines = 9, size_kb = 1, ext = ''py''\<rparr>] 3
   = [\<lparr>path = ''e.py'', lines = 9, size_kb = 1, ext = ''py''\<rparr>,
      \<lparr>path = ''c.py'', lines = 7, size_kb = 1, ext = ''py''\<rparr>,
      \<lparr>path = ''a.py'', lines = 3, size_kb = 1, ext = ''py''\<rparr>]
   \<and> bottom_files
     [\<lparr>path = ''a.py'', lines = 3, size_kb = 1, ext = ''py''\<rparr>,
      \<lparr>path = ''b.py'', lines = 0, size_kb = 0, ext = ''py''\<rparr>,
      \<lparr>path = ''c.py'', lines = 7, size_kb = 1, ext = ''py''\<rparr>,
      \<lparr>path = ''d.py'', lines = 3, size_kb = 1, ext = ''py''\<rparr>,
      \<lparr>path = ''e.py'', lines = 9, size_kb = 1, ext = ''py''\<rparr>] 3
   = [\<lparr>path = ''a.py'', lines = 3, size_kb = 1, ext = ''py''\<rparr>,
      \<lparr>path = ''d.py'', lines = 3, size_kb = 1, ext = ''py''\<rparr>,
      \<lparr>path = ''c.py'', lines = 7, size_kb = 1, ext = ''py''\<rparr>]"
proof -
  let ?fi = "[\<lparr>path = ''a.py'', lines = 3, size_kb = 1, ext = ''py''\<rparr>,
      \<lparr>path = ''b.py'', lines = 0, size_kb = 0, ext = ''py''\<rparr>,
      \<lparr>path = ''c.py'', lines = 7, size_kb = 1, ext = ''py''\<rparr>,
      \<lparr>path = ''d.py'', lines = 3, size_kb = 1, ext = ''py''\<rparr>,
      \<lparr>path = ''e.py'', lines = 9, size_kb = 1, ext = ''py''\<rparr>]"
  have "(0::int) \<le> 3" by simp
  with top_and_bottom_tables [of 3 ?fi]
  have "top_files ?fi 3 = take (nat 3) (sorted_reverse lines (filter (\<lambda>f. 0 < lines f) ?fi))
      \<and> bottom_files ?fi 3 = take (nat 3) (sort_key lines (filter (\<lambda>f. 0 < lines f) ?fi))"
    by blast
  then show ?thesis
    by (simp add: sorted_reverse_def)
qed

text \<open>
  The claim C5 as it is written, for every \<open>n\<close>, fails at \<open>n = -1\<close>: the slice then drops
  the last record instead of taking none.
\<close>

theorem top_and_bottom_tables_counterexample:
  "top_files
     [\<lparr>path = ''a.py'', lines = 3, size_kb = 1, ext = ''py''\<rparr>,
      \<lparr>path = ''c.py'', lines = 7, size_kb = 1, ext = ''py''\<rparr>] (- 1)
   = [\<lparr>path = ''c.py'', lines = 7, size_kb = 1, ext = ''py''\<rparr>]
   \<and> take (nat (- 1)) (sorted_reverse lines (filter (\<lambda>f. 0 < lines f)
     [\<lparr>path = ''a.py'', lines = 3, size_kb = 1, ext = ''py''\<rparr>,
      \<lparr>path = ''c.py'', lines = 7, size_kb = 1, ext = ''py''\<rparr>])) = []
   \<and> generate_top_files_table
     [\<lparr>path = ''a.py'', lines = 3, size_kb = 1, ext = ''py''\<rparr>,
      \<lparr>path = ''c.py'', lines = 7, size_kb = 1, ext = ''py''\<rparr>] (- 1)
   = join [LF] [''| Rank | File | Lines | Size (KB) |'',
                ''|------|------|------|------|'',
                ''| 1 | `c.py` | 7 | 1.0 |'']"
  by (simp add: top_files_def slice_to_def sorted_reverse_def render_defs format_defs)

section \<open>Rows of the tables\<close>

lemma digit_char_in: "d < 10 \<Longrightarrow> digit_char d \<in> set ''0123456789''"
  unfolding digit_char_def by (rule nth_mem) simp

lemma digit_char_not_comma: "d < 10 \<Longrightarrow> digit_char d \<noteq> CHR '',''"
  using digit_char_in [of d] by auto

lemma str_nat_no_comma: "CHR '','' \<notin> set (str_nat n)"
proof (induction n rule: str_nat.induct)
  case (1 n)
  show ?case
  proof (cases "n < 10")
    case True
    then show ?thesis
      using digit_char_not_comma [of n] by (simp add: str_nat.simps [of n])
  next
    case False
    have "n mod 10 < 10" by simp
    with False "1.IH" show ?thesis
      using digit_char_not_comma [of "n mod 10"] by (simp add: str_nat.simps [of n])
  qed
qed

lemma group3_short: "length ds \<le> 3 \<Longrightarrow> group3 ds = ds"
  by (subst group3.simps) simp

lemma group3_long:
  "3 < length ds \<Longrightarrow>
     group3 ds = group3 (take (length ds - 3) ds) @ CHR '','' # drop (length ds - 3) ds"
  by (subst group3.simps) simp

lemma filter_absent: "c \<notin> set ds \<Longrightarrow> filter (\<lambda>x. x \<noteq> c) ds = ds"
  by (induction ds) auto

lemma filter_group3:
  "CHR '','' \<notin> set ds \<Longrightarrow> filter (\<lambda>c. c \<noteq> CHR '','') (group3 ds) = ds"
proof (induction ds rule: group3.induct)
  case (1 ds)
  show ?case
  proof (cases "length ds \<le> 3")
    case True
    with "1.prems" show ?thesis
      by (simp add: group3_short filter_absent)
  next
    case False
    from "1.prems" have t: "CHR '','' \<notin> set (take (length ds - 3) ds)"
      and d: "CHR '','' \<notin> set (drop (length ds - 3) ds)"
      by (auto dest: in_set_takeD in_set_dropD)
    from d have "filter (\<lambda>c. c \<noteq> CHR '','') (drop (length ds - 3) ds) = drop (length ds - 3) ds"
      by (rule filter_absent)
    with False "1.IH" [OF False t] show ?thesis
      by (simp add: group3_long)
  qed
qed

lemma length_group3_pos: "ds \<noteq> [] \<Longrightarrow> group3 ds \<noteq> []"
  by (subst group3.simps) simp

lemma comma_positions:
  "CHR '','' \<notin> set ds \<Longrightarrow> i < length (group3 ds) \<Longrightarrow>
     (group3 ds ! i = CHR '','') = ((length (group3 ds) - i) mod 4 = 0)"
proof (induction ds arbitrary: i rule: group3.induct)
  case (1 ds)
  show ?case
  proof (cases "length ds \<le> 3")
    case True
    with "1.prems" have i: "i < length ds"
      by (simp add: group3_short)
    then have "ds ! i \<in> set ds" by (rule nth_mem)
    with "1.prems"(1) have "ds ! i \<noteq> CHR '',''" by metis
    moreover from i True have "0 < length ds - i" and "length ds - i \<le> 3"
      by simp_all
    ultimately have "ds ! i \<noteq> CHR '',''" and "0 < length ds - i" and "length ds - i \<le> 3"
      by simp_all
    with True show ?thesis
      by (simp add: group3_short)
  next
    case False
    let ?h = "group3 (take (length ds - 3) ds)"
    let ?t = "drop (length ds - 3) ds"
    from "1.prems" have t: "CHR '','' \<notin> set (take (length ds - 3) ds)"
      and d: "CHR '','' \<notin> set ?t"
      by (auto dest: in_set_takeD in_set_dropD)
    from False have g: "group3 ds = ?h @ CHR '','' # ?t" and lt: "length ?t = 3"
      by (simp_all add: group3_long)
    consider "i < length ?h" | "i = length ?h" | "length ?h < i" by linarith
    then show ?thesis
    proof cases
      case 1
      from "1.IH" [OF False t 1] 1 lt show ?thesis
        by (simp add: g nth_append) presburger
    next
      case 2
      with lt show ?thesis
        by (simp add: g nth_append)
    next
      case 3
      from "1.prems"(2) g lt have b: "i - length ?h - 1 < 3" by simp
      with lt have "?t ! (i - length ?h - 1) \<in> set ?t"
        by (intro nth_mem) simp
      with d have "?t ! (i - length ?h - 1) \<noteq> CHR '',''" by metis
      moreover from 3 "1.prems"(2) g lt
      have "0 < length (group3 ds) - i" "length (group3 ds) - i < 4" by simp_all
      ultimately show ?thesis using 3
        by (simp add: g nth_append nth_Cons')
    qed
  qed
qed


lemma round_half_even_bound: "\<bar>real_of_int (round_half_even q) - q\<bar> \<le> 1 / 2"
proof -
  have "real_of_int \<lfloor>q\<rfloor> \<le> q" and "q < real_of_int \<lfloor>q\<rfloor> + 1"
    by linarith+
  then show ?thesis
    by (auto simp: round_half_even_def Let_def)
qed

lemma round_half_even_nonneg: "0 \<le> q \<Longrightarrow> 0 \<le> round_half_even q"
proof -
  assume "0 \<le> q"
  then have "0 \<le> \<lfloor>q\<rfloor>" by simp
  then show ?thesis
    by (auto simp: round_half_even_def Let_def)
qed

lemma format_1f_shape:
  assumes "0 \<le> x"
  shows "\<exists>t. format_1f x = str_nat (t div 10) @ [CHR ''.'', digit_char (t mod 10)]
           \<and> \<bar>real t / 10 - x\<bar> \<le> 1 / 20"
proof -
  let ?t = "nat (round_half_even (x * 10))"
  from assms have "0 \<le> round_half_even (x * 10)"
    by (intro round_half_even_nonneg) simp
  then have "real ?t = real_of_int (round_half_even (x * 10))" by simp
  with round_half_even_bound [of "x * 10"] have "\<bar>real ?t - x * 10\<bar> \<le> 1 / 2" by simp
  then have "\<bar>real ?t / 10 - x\<bar> \<le> 1 / 20" by (simp add: field_simps abs_le_iff)
  moreover from assms
  have "format_1f x = str_nat (?t div 10) @ [CHR ''.'', digit_char (?t mod 10)]"
    by (simp add: format_1f_def Let_def)
  ultimately show ?thesis by blast
qed

lemma markdown_table_lines_nth:
  "i < length file_info \<Longrightarrow>
     markdown_table_lines file_info ! (i + 2) = markdown_row (sorted_info file_info ! i)"
  by (simp add: markdown_table_lines_def sorted_info_def nth_append)

lemma file_table_lines_nth:
  assumes "i < length files"
  shows "file_table_lines files show_rank ! (i + 2) = file_table_row show_rank (i + 1, files ! i)"
proof -
  from assms have "zip [1 ..< Suc (length files)] files ! i = (i + 1, files ! i)"
    by (simp add: nth_zip del: upt_Suc)
  with assms show ?thesis
    by (simp add: file_table_lines_def Let_def nth_append del: upt_Suc)
qed

lemma format_commas_digits:
  "filter (\<lambda>c. c \<noteq> CHR '','') (format_commas n) = str_int n"
  by (simp add: format_commas_def str_int_def filter_group3 str_nat_no_comma)

text \<open>
  C7, as amended. Row \<open>i\<close> of the full listing is the path between backticks, the
  extension, the line count and the size, between bars; row \<open>i\<close> of a top or bottom table
  is the rank \<open>i + 1\<close>, the path between backticks, the line count and the size, and has
  no extension. A line count is written with a comma before every group of three digits
  counted from the right, and is its decimal numeral once the commas are removed. A size
  is written with one digit after the point, and differs from the number printed by at
  most a twentieth.
\<close>

theorem table_rows:
  "(i < length file_info \<longrightarrow>
      markdown_table_lines file_info ! (i + 2) =
        ''| `'' @ path (sorted_info file_info ! i) @ ''` | '' @ ext (sorted_info file_info ! i)
          @ '' | '' @ format_commas (lines (sorted_info file_info ! i))
          @ '' | '' @ format_1f (size_kb (sorted_info file_info ! i)) @ '' |'')
   \<and> (i < length files \<longrightarrow>
      file_table_lines files True ! (i + 2) =
        ''| '' @ str_nat (i + 1) @ '' | `'' @ path (files ! i) @ ''` | ''
          @ format_commas (lines (files ! i))
          @ '' | '' @ format_1f (size_kb (files ! i)) @ '' |'')
   \<and> length (markdown_table_lines file_info) = length file_info + 2
   \<and> length (file_table_lines files True) = length files + 2
   \<and> (file_info \<noteq> [] \<longrightarrow>
        generate_markdown_table file_info = join [LF] (markdown_table_lines file_info))
   \<and> (files \<noteq> [] \<longrightarrow>
        generate_file_table files True = join [LF] (file_table_lines files True))
   \<and> filter (\<lambda>c. c \<noteq> CHR '','') (format_commas n) = str_int n
   \<and> (0 \<le> n \<and> k < length (format_commas n) \<longrightarrow>
        (format_commas n ! k = CHR '','') = ((length (format_commas n) - k) mod 4 = 0))
   \<and> (0 \<le> x \<longrightarrow>
        (\<exists>t. format_1f x = str_nat (t div 10) @ [CHR ''.'', digit_char (t mod 10)]
           \<and> \<bar>real t / 10 - x\<bar> \<le> 1 / 20))"
proof (intro conjI)
  show "i < length file_info \<longrightarrow>
      markdown_table_lines file_info ! (i + 2) =
        ''| `'' @ path (sorted_info file_info ! i) @ ''` | '' @ ext (sorted_info file_info ! i)
          @ '' | '' @ format_commas (lines (sorted_info file_info ! i))
          @ '' | '' @ format_1f (size_kb (sorted_info file_info ! i)) @ '' |''"
    using markdown_table_lines_nth [of i file_info] by (simp add: markdown_row_def)
  show "i < length files \<longrightarrow>
      file_table_lines files True ! (i + 2) =
        ''| '' @ str_nat (i + 1) @ '' | `'' @ path (files ! i) @ ''` | ''
          @ format_commas (lines (files ! i))
          @ '' | '' @ format_1f (size_kb (files ! i)) @ '' |''"
    using file_table_lines_nth [of i files True] by (simp add: file_table_row_def)
  show "length (markdown_table_lines file_info) = length file_info + 2"
    by (simp add: markdown_table_lines_def sorted_info_def)
  show "length (file_table_lines files True) = length files + 2"
    by (simp add: file_table_lines_def del: upt_Suc)
  show "file_info \<noteq> [] \<longrightarrow>
        generate_markdown_table file_info = join [LF] (markdown_table_lines file_info)"
    by (simp add: generate_markdown_table_def)
  show "files \<noteq> [] \<longrightarrow>
        generate_file_table files True = join [LF] (file_table_lines files True)"
    by (simp add: generate_file_table_def)
  show "filter (\<lambda>c. c \<noteq> CHR '','') (format_commas n) = str_int n"
    by (rule format_commas_digits)
  show "0 \<le> n \<and> k < length (format_commas n) \<longrightarrow>
        (format_commas n ! k = CHR '','') = ((length (format_commas n) - k) mod 4 = 0)"
    using comma_positions [OF str_nat_no_comma, of k "nat n"]
    by (simp add: format_commas_def)
  show "0 \<le> x \<longrightarrow>
        (\<exists>t. format_1f x = str_nat (t div 10) @ [CHR ''.'', digit_char (t mod 10)]
           \<and> \<bar>real t / 10 - x\<bar> \<le> 1 / 20)"
    using format_1f_shape by blast
qed

theorem table_rows_witness:
  "markdown_table_lines [\<lparr>path = ''a.py'', lines = 1234567, size_kb = 3 / 2, ext = ''py''\<rparr>] ! 2
     = ''| `a.py` | py | 1,234,567 | 1.5 |''
   \<and> file_table_lines [\<lparr>path = ''a.py'', lines = 1234567, size_kb = 3 / 2, ext = ''py''\<rparr>] True ! 2
     = ''| 1 | `a.py` | 1,234,567 | 1.5 |''
   \<and> format_commas 1234567 ! 1 = CHR '',''
   \<and> format_1f (256 / 1024) = ''0.2''"
proof (intro conjI)
  let ?r = "\<lparr>path = ''a.py'', lines = 1234567, size_kb = 3 / 2, ext = ''py''\<rparr>"
  have c: "format_commas 1234567 = ''1,234,567''"
    by (simp add: format_defs)
  have f: "format_1f (3 / 2) = ''1.5''"
    by (simp add: format_defs)
  have s: "sorted_info [?r] = [?r]"
    by (simp add: sorted_info_def)
  note T = table_rows [of 0 "[?r]" "[?r]" 1234567 1 0]
  have len: "0 < length [?r]" by simp
  have "markdown_table_lines [?r] ! (0 + 2) =
        ''| `'' @ path (sorted_info [?r] ! 0) @ ''` | '' @ ext (sorted_info [?r] ! 0)
          @ '' | '' @ format_commas (lines (sorted_info [?r] ! 0))
          @ '' | '' @ format_1f (size_kb (sorted_info [?r] ! 0)) @ '' |''"
    by (rule T [THEN conjunct1, THEN mp, OF len])
  also have "\<dots> = ''| `a.py` | py | 1,234,567 | 1.5 |''"
    unfolding s by (simp add: c f)
  finally show "markdown_table_lines [?r] ! 2 = ''| `a.py` | py | 1,234,567 | 1.5 |''"
    by (simp add: numeral_2_eq_2)
  have "file_table_lines [?r] True ! (0 + 2) =
        ''| '' @ str_nat (0 + 1) @ '' | `'' @ path ([?r] ! 0) @ ''` | ''
          @ format_commas (lines ([?r] ! 0))
          @ '' | '' @ format_1f (size_kb ([?r] ! 0)) @ '' |''"
    by (rule T [THEN conjunct2, THEN conjunct1, THEN mp, OF len])
  also have "\<dots> = ''| 1 | `a.py` | 1,234,567 | 1.5 |''"
    by (simp add: c f str_nat.simps [of "Suc 0"] digit_char_def)
  finally show "file_table_lines [?r] True ! 2 = ''| 1 | `a.py` | 1,234,567 | 1.5 |''"
    by (simp add: numeral_2_eq_2)
  show "format_commas 1234567 ! 1 = CHR '',''"
    by (simp add: c)
  show "format_1f (256 / 1024) = ''0.2''"
    by (simp add: format_defs)
qed

text \<open>
  The claim C7 as it is written fails for the top and bottom tables: their rows have no
  extension column. The one row of the top table of a file \<open>a\<close> without extension does not
  contain its extension \<open>none\<close>.
\<close>

theorem table_rows_counterexample:
  "generate_top_files_table [\<lparr>path = ''a'', lines = 3, size_kb = 0, ext = ''none''\<rparr>] 1
     = join [LF] [''| Rank | File | Lines | Size (KB) |'',
                  ''|------|------|------|------|'',
                  ''| 1 | `a` | 3 | 0.0 |'']
   \<and> \<not> sublist ''none''
         (generate_top_files_table [\<lparr>path = ''a'', lines = 3, size_kb = 0, ext = ''none''\<rparr>] 1)"
  by (simp add: top_files_def slice_to_def sorted_reverse_def render_defs format_defs
        sublist_Cons_right LF_def)

section \<open>The entry point\<close>

text \<open>
  C8. When the start path is not a directory, \<open>main\<close> prints the error message and
  returns; when it is one and no file qualifies, \<open>main\<close> prints that no files were found
  and returns. In both cases it attempts no write, and in no other case.
\<close>

theorem main_stops_without_writing:
  "(\<not> isdir w \<longrightarrow>
      main cfg start_path output_path top_n w =
        \<lparr>printed = [''Error: '' @ [apostrophe] @ start_path @ [apostrophe]
                      @ '' is not a valid directory.''],
         write_attempt = None\<rparr>)
   \<and> (isdir w \<and> get_file_info (set (skip_dirs cfg)) (skip_extensions cfg) (tree w) = [] \<longrightarrow>
      main cfg start_path output_path top_n w =
        \<lparr>printed = [''Analyzing files in: '' @ start_path @ ''...'',
                    ''No files found matching the criteria. Report not generated.''],
         write_attempt = None\<rparr>)
   \<and> (write_attempt (main cfg start_path output_path top_n w) = None \<longleftrightarrow>
        \<not> isdir w \<or> get_file_info (set (skip_dirs cfg)) (skip_extensions cfg) (tree w) = [])"
proof (cases "isdir w")
  case False
  then show ?thesis
    by (simp add: main_def)
next
  case True
  show ?thesis
  proof (cases "get_file_info (set (skip_dirs cfg)) (skip_extensions cfg) (tree w) = []")
    case True
    with \<open>isdir w\<close> show ?thesis
      by (simp add: main_def Let_def)
  next
    case False
    with \<open>isdir w\<close> show ?thesis
      by (simp add: main_def Let_def split: option.splits)
  qed
qed

theorem main_stops_without_writing_witness:
  "main DEFAULT_CONFIG ''/nowhere'' ''LINE_COUNT.md'' 10 \<lparr>isdir = False, tree = [], write_error = None\<rparr>
     = \<lparr>printed = [''Error: '' @ [apostrophe] @ ''/nowhere'' @ [apostrophe]
                      @ '' is not a valid directory.''],
        write_attempt = None\<rparr>
   \<and> main DEFAULT_CONFIG ''/docs'' ''LINE_COUNT.md'' 10
       \<lparr>isdir = True, tree = [File ''notes.md'' (Some 10) (Some ''x''),
                               Dir ''.git'' [File ''config'' (Some 10) (Some ''y'')]],
        write_error = None\<rparr>
     = \<lparr>printed = [''Analyzing files in: /docs...'',
                    ''No files found matching the criteria. Report not generated.''],
        write_attempt = None\<rparr>"
proof (rule conjI)
  let ?w1 = "\<lparr>isdir = False, tree = [], write_error = None\<rparr>"
  have "\<not> isdir ?w1" by simp
  with main_stops_without_writing [of ?w1 DEFAULT_CONFIG "''/nowhere''" "''LINE_COUNT.md''" 10]
  show "main DEFAULT_CONFIG ''/nowhere'' ''LINE_COUNT.md'' 10 ?w1
     = \<lparr>printed = [''Error: '' @ [apostrophe] @ ''/nowhere'' @ [apostrophe]
                      @ '' is not a valid directory.''],
        write_attempt = None\<rparr>"
    by blast
next
  let ?w2 = "\<lparr>isdir = True, tree = [File ''notes.md'' (Some 10) (Some ''x''),
                               Dir ''.git'' [File ''config'' (Some 10) (Some ''y'')]],
        write_error = None\<rparr>"
  have md: "''.md'' \<in> skip_extensions DEFAULT_CONFIG"
    by (simp add: skip_extensions_def DEFAULT_CONFIG_def DEFAULT_SKIP_EXTENSIONS_BY_CATEGORY_def)
  have git: "''.git'' \<in> set (skip_dirs DEFAULT_CONFIG)"
    by (simp add: DEFAULT_CONFIG_def DEFAULT_SKIP_DIRS_def)
  have "isdir ?w2
      \<and> get_file_info (set (skip_dirs DEFAULT_CONFIG)) (skip_extensions DEFAULT_CONFIG) (tree ?w2) = []"
    using md git by (simp add: scan_defs)
  with main_stops_without_writing [of ?w2 DEFAULT_CONFIG "''/docs''" "''LINE_COUNT.md''" 10]
  have "main DEFAULT_CONFIG ''/docs'' ''LINE_COUNT.md'' 10 ?w2 =
        \<lparr>printed = [''Analyzing files in: '' @ ''/docs'' @ ''...'',
                    ''No files found matching the criteria. Report not generated.''],
         write_attempt = None\<rparr>"
    by blast
  then show "main DEFAULT_CONFIG ''/docs'' ''LINE_COUNT.md'' 10 ?w2
     = \<lparr>printed = [''Analyzing files in: /docs...'',
                    ''No files found matching the criteria. Report not generated.''],
        write_attempt = None\<rparr>"
    by simp
qed

section \<open>The iteration order of the configured sets\<close>











section \<open>The walk and the files of the tree\<close>

lemma visited_files_simps:
  "visited_files [] = []"
  "visited_files ((rootdir, fs) # visited) = map (Pair rootdir) fs @ visited_files visited"
  "visited_files (v @ v') = visited_files v @ visited_files v'"
  by (simp_all add: visited_files_def)

lemma collect_via_files:
  "collect se visited = List.map_filter (\<lambda>(rootdir, f). process_file se rootdir f) (visited_files visited)"
proof (induction visited)
  case Nil
  show ?case by (simp add: collect_def visited_files_def List.map_filter_simps)
next
  case (Cons v visited)
  obtain rootdir fs where v: "v = (rootdir, fs)" by (cases v)
  have "collect se (v # visited) = List.map_filter (process_file se rootdir) fs @ collect se visited"
    by (simp add: collect_def v)
  with Cons.IH show ?case
    by (simp add: v visited_files_simps List.map_filter_def filter_map o_def)
qed

lemma visited_files_filter:
  "visited_files (filter (not_excluded sd) visited)
     = filter (\<lambda>(rootdir, f). list_all (\<lambda>d. d \<notin> sd) rootdir) (visited_files visited)"
proof (induction visited)
  case Nil
  show ?case by (simp add: visited_files_simps)
next
  case (Cons v visited)
  obtain rootdir fs where v: "v = (rootdir, fs)" by (cases v)
  from Cons.IH show ?case
    by (simp add: v visited_files_simps not_excluded_def filter_map o_def)
qed

lemma all_files_split:
  "mset (concat (map (all_files p) es))
     = mset (map (Pair p) (filter (\<lambda>e. \<not> is_dir e) es))
       + mset (concat (map (all_files p) (filter is_dir es)))"
proof (induction es)
  case Nil
  show ?case by simp
next
  case (Cons e es)
  then show ?case by (cases e) simp_all
qed

lemma walk_visits_all_files:
  "s = {} \<Longrightarrow> mset (visited_files (walk s p es)) = mset (concat (map (all_files p) es))"
  "s = {} \<Longrightarrow> list_all is_dir ds \<Longrightarrow>
     mset (visited_files (walk_dirs s p ds)) = mset (concat (map (all_files p) ds))"
proof (induction s p es and s p ds rule: walk_walk_dirs.induct)
  case (1 s p es)
  have "list_all is_dir (filter (\<lambda>d. entry_name d \<notin> s) (filter is_dir es))"
    by (simp add: list_all_iff)
  from "1.IH" [OF refl refl refl "1.prems" this] "1.prems"
  have "mset (visited_files (walk_dirs s p (filter is_dir es)))
      = mset (concat (map (all_files p) (filter is_dir es)))"
    by simp
  with "1.prems" show ?case
    by (simp add: walk.simps visited_files_simps all_files_split [of p es])
next
  case (2 s p)
  show ?case by (simp add: visited_files_simps)
next
  case (3 s p d ds)
  from "3.prems"(2) obtain n sub where d: "d = Dir n sub"
    by (cases d) simp_all
  from "3.prems"(2) have "list_all is_dir ds" by simp
  with "3.IH"(1) [OF "3.prems"(1)] "3.IH"(2) [OF "3.prems"(1)] show ?case
    by (simp add: d visited_files_simps)
qed

lemma mset_visited_every_directory:
  "mset (visited_files (every_directory start)) = mset (tree_files start)"
  by (simp add: every_directory_def tree_files_def walk_visits_all_files(1))

lemma mset_visited_walk:
  "mset (visited_files (walk sd [] start))
     = filter_mset (\<lambda>(p, f). list_all (\<lambda>d. d \<notin> sd) p) (mset (tree_files start))"
proof -
  have "mset (visited_files (walk sd [] start))
      = filter_mset (\<lambda>(p, f). list_all (\<lambda>d. d \<notin> sd) p) (mset (visited_files (every_directory start)))"
    by (simp add: walk_is_filtered_full_walk visited_files_filter)
  then show ?thesis
    by (simp only: mset_visited_every_directory)
qed

lemma set_visited_walk:
  "set (visited_files (walk sd [] start))
     = {(p, f). (p, f) \<in> set (tree_files start) \<and> list_all (\<lambda>d. d \<notin> sd) p}"
proof -
  have "set (visited_files (walk sd [] start))
      = set_mset (filter_mset (\<lambda>(p, f). list_all (\<lambda>d. d \<notin> sd) p) (mset (tree_files start)))"
    by (simp only: mset_visited_walk [symmetric] set_mset_mset)
  then show ?thesis by auto
qed

lemma set_get_file_info_tree:
  "set (get_file_info sd se start)
     = {r. \<exists>p f. (p, f) \<in> set (tree_files start) \<and> list_all (\<lambda>d. d \<notin> sd) p
                 \<and> process_file se p f = Some r}"
proof -
  have "set (get_file_info sd se start)
      = {r. \<exists>x. x \<in> set (visited_files (walk sd [] start))
               \<and> (case x of (p, f) \<Rightarrow> process_file se p f) = Some r}"
    by (simp add: get_file_info_def collect_via_files set_map_filter)
  then show ?thesis
    unfolding set_visited_walk by auto
qed

section \<open>Exact match of directory names\<close>

text \<open>
  C10. A directory is pruned only when its name is itself a member of the excluded set.
  The files of the tree are read off the tree, directory by directory and at every
  depth: the records of the result are exactly those of the files that no directory
  with a name in the set leads to, whatever the lowercase forms of the directory names
  are. So a directory whose name differs from an excluded name in letter case only is
  traversed, and its files are in the result. The extension test, in contrast, is made
  on the lowercased extension.
\<close>

theorem dir_exclusion_is_exact_match:
  "set (get_file_info sd se start)
     = {r. \<exists>p f. (p, f) \<in> set (tree_files start) \<and> list_all (\<lambda>d. d \<notin> sd) p
                 \<and> process_file se p f = Some r}
   \<and> (lower (snd (splitext file)) \<in> se \<longrightarrow> process_file se rootdir (File file sz content) = None)"
proof (rule conjI)
  show "set (get_file_info sd se start)
     = {r. \<exists>p f. (p, f) \<in> set (tree_files start) \<and> list_all (\<lambda>d. d \<notin> sd) p
                 \<and> process_file se p f = Some r}"
    by (rule set_get_file_info_tree)
next
  show "lower (snd (splitext file)) \<in> se \<longrightarrow> process_file se rootdir (File file sz content) = None"
    by (simp add: process_file_None_iff rejected_name_def)
qed

theorem dir_exclusion_is_exact_match_witness:
  "lower ''Node_Modules'' \<in> set DEFAULT_SKIP_DIRS
   \<and> ''Node_Modules'' \<notin> set DEFAULT_SKIP_DIRS
   \<and> \<lparr>path = ''src/lib/Node_Modules/c.py'', lines = 1, size_kb = 1, ext = ''py''\<rparr>
       \<in> set (get_file_info (set DEFAULT_SKIP_DIRS) DEFAULT_SKIP_EXTENSIONS
               [Dir ''src''
                  [Dir ''lib''
                     [Dir ''Node_Modules'' [File ''c.py'' (Some 1024) (Some ''x'')],
                      Dir ''node_modules'' [File ''d.py'' (Some 1024) (Some ''x'')]]]])
   \<and> get_file_info (set DEFAULT_SKIP_DIRS) DEFAULT_SKIP_EXTENSIONS
               [Dir ''src''
                  [Dir ''lib''
                     [Dir ''Node_Modules'' [File ''c.py'' (Some 1024) (Some ''x'')],
                      Dir ''node_modules'' [File ''d.py'' (Some 1024) (Some ''x'')]]]]
       = [\<lparr>path = ''src/lib/Node_Modules/c.py'', lines = 1, size_kb = 1, ext = ''py''\<rparr>]
   \<and> process_file DEFAULT_SKIP_EXTENSIONS [] (File ''NOTES.MD'' (Some 1024) (Some ''x'')) = None"
proof (intro conjI)
  let ?start = "[Dir ''src''
                  [Dir ''lib''
                     [Dir ''Node_Modules'' [File ''c.py'' (Some 1024) (Some ''x'')],
                      Dir ''node_modules'' [File ''d.py'' (Some 1024) (Some ''x'')]]]]"
  let ?r = "\<lparr>path = ''src/lib/Node_Modules/c.py'', lines = 1, size_kb = 1, ext = ''py''\<rparr>"
  let ?p = "[''src'', ''lib'', ''Node_Modules'']"
  let ?f = "File ''c.py'' (Some 1024) (Some ''x'')"
  show "lower ''Node_Modules'' \<in> set DEFAULT_SKIP_DIRS"
    by (simp add: DEFAULT_SKIP_DIRS_def lower_def lower_char_def)
  show n: "''Node_Modules'' \<notin> set DEFAULT_SKIP_DIRS"
    by (simp add: DEFAULT_SKIP_DIRS_def)
  have s: "''src'' \<notin> set DEFAULT_SKIP_DIRS" "''lib'' \<notin> set DEFAULT_SKIP_DIRS"
    by (simp_all add: DEFAULT_SKIP_DIRS_def)
  have m: "''node_modules'' \<in> set DEFAULT_SKIP_DIRS"
    by (simp add: DEFAULT_SKIP_DIRS_def)
  have e: "''.py'' \<notin> DEFAULT_SKIP_EXTENSIONS"
    by (simp add: DEFAULT_SKIP_EXTENSIONS_def skip_extensions_def DEFAULT_CONFIG_def
          DEFAULT_SKIP_EXTENSIONS_BY_CATEGORY_def)
  have "(?p, ?f) \<in> set (tree_files ?start)"
    by (simp add: tree_files_def)
  moreover have "list_all (\<lambda>d. d \<notin> set DEFAULT_SKIP_DIRS) ?p"
    using n s by simp
  moreover have "process_file DEFAULT_SKIP_EXTENSIONS ?p ?f = Some ?r"
    using e by (simp add: scan_defs)
  ultimately have "\<exists>p f. (p, f) \<in> set (tree_files ?start)
      \<and> list_all (\<lambda>d. d \<notin> set DEFAULT_SKIP_DIRS) p
      \<and> process_file DEFAULT_SKIP_EXTENSIONS p f = Some ?r"
    by blast
  then show "?r \<in> set (get_file_info (set DEFAULT_SKIP_DIRS) DEFAULT_SKIP_EXTENSIONS ?start)"
    by (simp add: dir_exclusion_is_exact_match [THEN conjunct1])
  show "get_file_info (set DEFAULT_SKIP_DIRS) DEFAULT_SKIP_EXTENSIONS ?start = [?r]"
    using n s m e by (simp add: scan_defs)
  have "lower (snd (splitext ''NOTES.MD'')) \<in> DEFAULT_SKIP_EXTENSIONS"
    by (simp add: DEFAULT_SKIP_EXTENSIONS_def skip_extensions_def DEFAULT_CONFIG_def
          DEFAULT_SKIP_EXTENSIONS_BY_CATEGORY_def splitext_def lower_def lower_char_def)
  with dir_exclusion_is_exact_match
  show "process_file DEFAULT_SKIP_EXTENSIONS [] (File ''NOTES.MD'' (Some 1024) (Some ''x'')) = None"
    by blast
qed

section \<open>The listing order of directories\<close>



section \<open>Determinism of the report\<close>




end
